theory Spec2Isabelle
  imports Complex_Main
begin

section \<open>The coverage plugin of PyBuilder\<close>

text \<open>
  A shallow embedding of \<^verbatim>\<open>pybuilder/plugins/python/coverage_plugin.py\<close>.
  The plugin is orchestration code: it calls the coverage library, the interpreter's module
  table, the project and the reactor. Those collaborators are parameters of the model (the
  record \<open>world\<close>), every call the plugin makes to them is an event of a trace, in the order
  of the source, and a raised exception is the \<open>Inl\<close> of the result.

  The file runs under Python 2 and under Python 3 (\<^verbatim>\<open>StringIO\<close> is imported from its
  Python 2 module, with the Python 3 one as the fallback, and there is no
  \<^verbatim>\<open>from __future__ import division\<close>). The operator \<^verbatim>\<open>/\<close> of the source is applied to
  two integers, and what it computes depends on the interpreter: floor division and an
  integer under Python 2, true division and a float under Python 3. Both raise
  \<^verbatim>\<open>ZeroDivisionError\<close> for the divisor 0. The interpreter is a parameter of the model.
\<close>

subsection \<open>Numbers\<close>

text \<open>
  A Python number is an integer or a float. A float is modelled by the rational number it
  denotes. The float that true division yields is the exact quotient rounded to the
  nearest float; the rounding is the parameter \<open>float_of\<close> of the record \<open>world\<close> below.
  The line counts are list lengths, so every quotient of the plugin is far inside the
  range of the floats.
\<close>

datatype interpreter = Python2 | Python3

datatype number = PyInt int | PyFloat rat

fun number_value :: "number \<Rightarrow> rat" where
  "number_value (PyInt i) = of_int i"
| "number_value (PyFloat q) = q"

text \<open>\<^verbatim>\<open>x < t\<close> for a number and an integer: Python compares the two by value.\<close>

definition num_less :: "number \<Rightarrow> int \<Rightarrow> bool" where
  "num_less x t = (number_value x < of_int t)"

text \<open>\<^verbatim>\<open>int(x)\<close>, which the format \<^verbatim>\<open>%d\<close> applies to a float: truncation towards 0.\<close>

fun truncated :: "number \<Rightarrow> int" where
  "truncated (PyInt i) = i"
| "truncated (PyFloat q) = (if q < 0 then \<lceil>q\<rceil> else \<lfloor>q\<rfloor>)"

subsection \<open>Values of the collaborators\<close>

text \<open>A module object of the interpreter, known by its identity.\<close>

datatype module_obj = ModuleObj nat

text \<open>
  What \<^verbatim>\<open>coverage.analysis(module)\<close> returns: a tuple whose index 1 is the list of
  executable lines and whose index 2 is the list of lines not executed.
\<close>

record analysis_result =
  filename :: string
  statements :: "nat list"
  missing :: "nat list"
  missing_formatted :: string

datatype exn =
    CoverageException
  | BuildFailedException string "int list"
  | ZeroDivisionError
  | OtherException string

datatype level = Debug | Info | Warn

text \<open>One entry of \<^verbatim>\<open>report["module_names"]\<close>, and the report itself.\<close>

record module_report =
  mr_module :: string
  mr_coverage :: number
  mr_sum_lines :: int
  mr_lines :: "nat list"
  mr_sum_lines_not_covered :: int
  mr_lines_not_covered :: "nat list"

record report =
  module_names :: "module_report list"
  overall_coverage :: number

datatype report_body = Structured report | Summary string

datatype event =
    Erase
  | Start
  | Stop
  | SetProperty string bool
  | ExecuteTask string
  | Log level string
  | Reload module_obj
  | Analysis module_obj
  | WriteReport string report_body
  | Report "module_obj list"
  | XmlReport string
  | Save
  | ProcessStart
  | ProcessJoin

text \<open>
  The project properties the plugin reads, for the execution prefix in use
  (\<^verbatim>\<open>coverage_threshold_warn\<close>, \<^verbatim>\<open>coverage_break_build\<close>, ...).
\<close>

record project =
  threshold_warn :: int
  break_build :: bool
  reload_modules :: bool
  exceptions :: "string list"
  fork :: bool

text \<open>
  The collaborators. \<open>discover_modules\<close> is what \<^verbatim>\<open>_discover_modules_to_cover\<close>
  returns, \<open>sys_modules\<close> the table \<^verbatim>\<open>sys.modules\<close> once the target task has run.
  \<open>execute_task\<close>, \<open>xml_report\<close> and \<open>save\<close> return (\<open>None\<close>) or raise; \<open>report\<close>
  raises or yields the text it wrote to the summary buffer. \<open>exitcode\<close> is the exit code of
  the forked process after \<^verbatim>\<open>join\<close>. All other calls are taken to return.
  \<open>interpreter\<close> is the Python that runs the plugin, and \<open>float_of\<close> its rounding of an
  exact quotient to a float (used under Python 3 only).
\<close>

record world =
  discover_modules :: "string list"
  sys_modules :: "string \<rightharpoonup> module_obj"
  analysis :: "module_obj \<Rightarrow> analysis_result"
  execute_task :: "string \<Rightarrow> exn option"
  report :: "module_obj list \<Rightarrow> exn + string"
  xml_report :: "string \<Rightarrow> exn option"
  save :: "exn option"
  expand_path :: "string \<Rightarrow> string"
  exitcode :: int
  interpreter :: interpreter
  float_of :: "rat \<Rightarrow> rat"

subsection \<open>String formatting\<close>

fun digits10 :: "nat \<Rightarrow> string" where
  "digits10 n =
     (if n < 10 then [''0123456789'' ! n]
      else digits10 (n div 10) @ [''0123456789'' ! (n mod 10)])"

declare digits10.simps [simp del]

text \<open>\<^verbatim>\<open>%d\<close> and \<^verbatim>\<open>%2d\<close> of an integer.\<close>

definition fmt_d :: "int \<Rightarrow> string" where
  "fmt_d i = (if i < 0 then CHR ''-'' # digits10 (nat (- i)) else digits10 (nat i))"

definition fmt_2d :: "int \<Rightarrow> string" where
  "fmt_2d i = replicate (2 - length (fmt_d i)) CHR '' '' @ fmt_d i"

subsection \<open>Division\<close>

text \<open>The value of \<^verbatim>\<open>a / b\<close> for two integers and a divisor that is not 0.\<close>

definition py_quotient :: "world \<Rightarrow> int \<Rightarrow> int \<Rightarrow> number" where
  "py_quotient w a b =
     (case interpreter w of
        Python2 \<Rightarrow> PyInt (a div b)
      | Python3 \<Rightarrow> PyFloat (float_of w (of_int a / of_int b)))"

text \<open>\<^verbatim>\<open>a / b\<close> as the interpreter evaluates it.\<close>

definition py_div :: "world \<Rightarrow> int \<Rightarrow> int \<Rightarrow> exn + number" where
  "py_div w a b = (if b = 0 then Inl ZeroDivisionError else Inr (py_quotient w a b))"

subsection \<open>\<^verbatim>\<open>build_module_report\<close>\<close>

definition build_module_report ::
  "world \<Rightarrow> module_obj \<Rightarrow> exn + (int \<times> nat list \<times> int \<times> nat list \<times> number)" where
  "build_module_report w module' =
     (let analysis_result = analysis w module';
          lines_total = int (length (statements analysis_result));
          lines_not_covered = int (length (missing analysis_result));
          lines_covered = lines_total - lines_not_covered
      in case (if lines_total = 0 then Inr (PyInt 100)
               else if lines_covered = 0 then Inr (PyInt 0)
               else py_div w (lines_covered * 100) lines_total) of
           Inl e \<Rightarrow> Inl e
         | Inr code_coverage \<Rightarrow>
             Inr (lines_total, statements analysis_result,
                  lines_not_covered, missing analysis_result,
                  code_coverage))"

text \<open>The components of the tuple, by the index the source reads them with.\<close>

definition data0 :: "int \<times> nat list \<times> int \<times> nat list \<times> number \<Rightarrow> int" where
  "data0 d = fst d"

definition data1 :: "int \<times> nat list \<times> int \<times> nat list \<times> number \<Rightarrow> nat list" where
  "data1 d = fst (snd d)"

definition data2 :: "int \<times> nat list \<times> int \<times> nat list \<times> number \<Rightarrow> int" where
  "data2 d = fst (snd (snd d))"

definition data3 :: "int \<times> nat list \<times> int \<times> nat list \<times> number \<Rightarrow> nat list" where
  "data3 d = fst (snd (snd (snd d)))"

definition data4 :: "int \<times> nat list \<times> int \<times> nat list \<times> number \<Rightarrow> number" where
  "data4 d = snd (snd (snd (snd d)))"

subsection \<open>The loop of \<^verbatim>\<open>do_coverage\<close> over the discovered modules\<close>

text \<open>
  The local variables the loop updates, the events it causes, and the exception that has
  left it, if any.
\<close>

record loop_state =
  coverage_too_low :: bool
  sum_lines :: int
  sum_lines_not_covered :: int
  modules :: "module_obj list"
  report_modules :: "module_report list"
  events :: "event list"
  raised :: "exn option"

definition loop_init :: loop_state where
  "loop_init =
     \<lparr>coverage_too_low = False, sum_lines = 0, sum_lines_not_covered = 0,
      modules = [], report_modules = [], events = [], raised = None\<rparr>"

definition not_imported_msg :: "string \<Rightarrow> string" where
  "not_imported_msg module_name =
     ''Module not imported: '' @ module_name @ ''. No coverage information available.''"

definition below_msg :: "int \<Rightarrow> string \<Rightarrow> number \<Rightarrow> string" where
  "below_msg threshold module_name c =
     ''Test coverage below '' @ fmt_2d threshold @ ''% for '' @ module_name @ '': ''
       @ fmt_2d (truncated c) @ ''%''"

text \<open>
  One iteration of the loop (lines 96 to 129). An exception of \<^verbatim>\<open>build_module_report\<close>
  leaves the loop and \<^verbatim>\<open>do_coverage\<close>.
\<close>

definition cover_module :: "world \<Rightarrow> project \<Rightarrow> string \<Rightarrow> loop_state \<Rightarrow> loop_state" where
  "cover_module w p module_name st =
     (case sys_modules w module_name of
        None \<Rightarrow> st\<lparr>events := events st @ [Log Warn (not_imported_msg module_name)]\<rparr>
      | Some module' \<Rightarrow>
          (case build_module_report w module' of
             Inl e \<Rightarrow>
               st\<lparr>modules := modules st @ [module'],
                  events := events st @ [Analysis module'],
                  raised := Some e\<rparr>
           | Inr module_report_data \<Rightarrow>
               (let should_ignore_module = module_name \<in> set (exceptions p);
                    module_report =
                      \<lparr>mr_module = module_name,
                       mr_coverage = data4 module_report_data,
                       mr_sum_lines = data0 module_report_data,
                       mr_lines = data1 module_report_data,
                       mr_sum_lines_not_covered = data2 module_report_data,
                       mr_lines_not_covered = data3 module_report_data\<rparr>;
                    low = num_less (data4 module_report_data) (threshold_warn p);
                    msg = below_msg (threshold_warn p) module_name (data4 module_report_data)
                in st\<lparr>coverage_too_low :=
                         (if low \<and> \<not> should_ignore_module then True else coverage_too_low st),
                       sum_lines :=
                         (if should_ignore_module then sum_lines st
                          else sum_lines st + data0 module_report_data),
                       sum_lines_not_covered :=
                         (if should_ignore_module then sum_lines_not_covered st
                          else sum_lines_not_covered st + data2 module_report_data),
                       modules := modules st @ [module'],
                       report_modules := report_modules st @ [module_report],
                       events := events st @ [Analysis module']
                         @ (if low then
                              (if should_ignore_module then [Log Info msg] else [Log Warn msg])
                            else [])\<rparr>)))"

fun cover_modules :: "world \<Rightarrow> project \<Rightarrow> string list \<Rightarrow> loop_state \<Rightarrow> loop_state" where
  "cover_modules w p [] st = st"
| "cover_modules w p (module_name # rest) st =
     (case raised (cover_module w p module_name st) of
        None \<Rightarrow> cover_modules w p rest (cover_module w p module_name st)
      | Some e \<Rightarrow> cover_module w p module_name st)"

subsection \<open>Starting and stopping the instrumenter\<close>

definition start_coverage :: "event list" where
  "start_coverage = [Erase, Start]"

definition reload_one :: "world \<Rightarrow> string \<Rightarrow> event list" where
  "reload_one w module_name =
     Log Debug (''Reloading module '' @ module_name)
       # (case sys_modules w module_name of None \<Rightarrow> [] | Some m \<Rightarrow> [Reload m])"

definition reimport_source_modules :: "world \<Rightarrow> project \<Rightarrow> event list" where
  "reimport_source_modules w p =
     (if reload_modules p then concat (map (reload_one w) (discover_modules w)) else [])"

definition stop_coverage :: "world \<Rightarrow> project \<Rightarrow> event list" where
  "stop_coverage w p = reimport_source_modules w p @ [Stop]"

subsection \<open>\<^verbatim>\<open>_write_summary_report\<close>\<close>

definition write_summary_report ::
  "world \<Rightarrow> module_obj list \<Rightarrow> string \<Rightarrow> event list \<times> (exn + unit)" where
  "write_summary_report w mods execution_prefix =
     (case report w mods of
        Inl e \<Rightarrow> ([Report mods], Inl e)
      | Inr summary \<Rightarrow>
          (let path = expand_path w (''$dir_reports/'' @ execution_prefix @ ''.xml'');
               written = [WriteReport execution_prefix (Summary summary)]
           in case xml_report w path of
                Some e \<Rightarrow>
                  (if e = CoverageException
                   then ([Report mods, XmlReport path] @ written, Inr ())
                   else ([Report mods, XmlReport path], Inl e))
              | None \<Rightarrow>
                  (case save w of
                     Some e \<Rightarrow>
                       (if e = CoverageException
                        then ([Report mods, XmlReport path, Save] @ written, Inr ())
                        else ([Report mods, XmlReport path, Save], Inl e))
                   | None \<Rightarrow> ([Report mods, XmlReport path, Save] @ written, Inr ()))))"

subsection \<open>\<^verbatim>\<open>do_coverage\<close>\<close>

definition analysed :: "world \<Rightarrow> project \<Rightarrow> loop_state" where
  "analysed w p = cover_modules w p (discover_modules w) loop_init"

text \<open>Lines 131 to 134.\<close>

definition overall :: "world \<Rightarrow> loop_state \<Rightarrow> exn + number" where
  "overall w st =
     (if sum_lines st = 0 then Inr (PyInt 0)
      else py_div w ((sum_lines st - sum_lines_not_covered st) * 100) (sum_lines st))"

text \<open>Lines 137 to 141: the log entry, and the flag afterwards.\<close>

definition overall_log :: "project \<Rightarrow> string \<Rightarrow> number \<Rightarrow> event" where
  "overall_log p execution_name overall_cov =
     (if num_less overall_cov (threshold_warn p)
      then Log Warn (''Overall '' @ execution_name @ '' is below '' @ fmt_2d (threshold_warn p)
             @ ''%: '' @ fmt_2d (truncated overall_cov) @ ''%'')
      else Log Info (''Overall '' @ execution_name @ '' is ''
             @ fmt_2d (truncated overall_cov) @ ''%''))"

definition flag_after_overall :: "project \<Rightarrow> loop_state \<Rightarrow> number \<Rightarrow> bool" where
  "flag_after_overall p st overall_cov =
     (if num_less overall_cov (threshold_warn p) then True else coverage_too_low st)"

definition too_low_failure :: "project \<Rightarrow> exn" where
  "too_low_failure p =
     BuildFailedException ''Test coverage for at least one module is below %d%%''
       [threshold_warn p]"

definition do_coverage ::
  "world \<Rightarrow> project \<Rightarrow> string \<Rightarrow> string \<Rightarrow> string \<Rightarrow> event list \<times> (exn + unit)" where
  "do_coverage w p execution_prefix execution_name target_task =
     (let before = start_coverage
            @ [SetProperty ''__running_coverage'' True, ExecuteTask target_task]
      in case execute_task w target_task of
           Some e \<Rightarrow> (before, Inl e)
         | None \<Rightarrow>
             (let st = analysed w p;
                  looped = before @ [SetProperty ''__running_coverage'' False]
                    @ stop_coverage w p
                    @ events st
              in case raised st of
                   Some e \<Rightarrow> (looped, Inl e)
                 | None \<Rightarrow>
                     (case overall w st of
                        Inl e \<Rightarrow> (looped, Inl e)
                      | Inr overall_cov \<Rightarrow>
                          (let measured = looped
                                 @ [overall_log p execution_name overall_cov,
                                    WriteReport (execution_prefix @ ''.json'')
                                      (Structured
                                        \<lparr>module_names = report_modules st,
                                         overall_coverage = overall_cov\<rparr>)];
                               summary = write_summary_report w (modules st) execution_prefix
                           in case snd summary of
                                Inl e \<Rightarrow> (measured @ fst summary, Inl e)
                              | Inr u \<Rightarrow>
                                  (if flag_after_overall p st overall_cov \<and> break_build p
                                   then (measured @ fst summary, Inl (too_low_failure p))
                                   else (measured @ fst summary, Inr ()))))))"

subsection \<open>\<^verbatim>\<open>run_coverage\<close>\<close>

definition fork_failure :: "string \<Rightarrow> int \<Rightarrow> exn" where
  "fork_failure execution_name code =
     BuildFailedException
       (''Forked '' @ execution_name @ '' process indicated failure with error code ''
          @ fmt_d code) []"

definition run_coverage ::
  "world \<Rightarrow> project \<Rightarrow> string \<Rightarrow> string \<Rightarrow> string \<Rightarrow> event list \<times> (exn + unit)" where
  "run_coverage w p execution_prefix execution_name target_task =
     (if fork p
      then (let forked =
                  [Log Info ''Collecting coverage information'',
                   Log Debug (''Forking process to do '' @ execution_name @ '' analysis''),
                   ProcessStart, ProcessJoin]
            in if exitcode w \<noteq> 0 \<and> break_build p
               then (forked, Inl (fork_failure execution_name (exitcode w)))
               else (forked, Inr ()))
      else (let inner = do_coverage w p execution_prefix execution_name target_task
            in (Log Info ''Collecting coverage information'' # fst inner, snd inner)))"

text \<open>The store of the property \<^verbatim>\<open>__running_coverage\<close> after a sequence of events.\<close>

fun running_coverage_after :: "bool option \<Rightarrow> event list \<Rightarrow> bool option" where
  "running_coverage_after v [] = v"
| "running_coverage_after v (SetProperty k b # es) =
     running_coverage_after (if k = ''__running_coverage'' then Some b else v) es"
| "running_coverage_after v (e # es) = running_coverage_after v es"

section \<open>The run in the words of the specification\<close>

subsection \<open>The modules that count towards the overall percentage\<close>

text \<open>
  The module objects of the discovered names that are loaded and not in the exception
  list, in the order of discovery, and the two sums over them, as the data model of the
  specification words them.
\<close>

fun counted :: "world \<Rightarrow> project \<Rightarrow> string list \<Rightarrow> module_obj list" where
  "counted w p [] = []"
| "counted w p (n # ns) =
     (case sys_modules w n of
        None \<Rightarrow> counted w p ns
      | Some m \<Rightarrow> (if n \<in> set (exceptions p) then counted w p ns else m # counted w p ns))"

definition total_lines_all_modules :: "world \<Rightarrow> project \<Rightarrow> int" where
  "total_lines_all_modules w p =
     (\<Sum>m\<leftarrow>counted w p (discover_modules w). int (length (statements (analysis w m))))"

definition uncovered_lines_all_modules :: "world \<Rightarrow> project \<Rightarrow> int" where
  "uncovered_lines_all_modules w p =
     (\<Sum>m\<leftarrow>counted w p (discover_modules w). int (length (missing (analysis w m))))"

text \<open>
  The percentage of a module: 100 if it has no line; 0 if no line is covered; else
  \<open>covered * 100 / total\<close>.
\<close>

definition module_percentage :: "world \<Rightarrow> module_obj \<Rightarrow> number" where
  "module_percentage w m =
     (if length (statements (analysis w m)) = 0 then PyInt 100
      else if int (length (statements (analysis w m))) - int (length (missing (analysis w m))) = 0
      then PyInt 0
      else py_quotient w
        ((int (length (statements (analysis w m))) - int (length (missing (analysis w m)))) * 100)
        (int (length (statements (analysis w m)))))"

text \<open>The entry of the structured report for a loaded module.\<close>

definition report_entry :: "world \<Rightarrow> string \<Rightarrow> module_obj \<Rightarrow> module_report" where
  "report_entry w n m =
     \<lparr>mr_module = n,
      mr_coverage = module_percentage w m,
      mr_sum_lines = int (length (statements (analysis w m))),
      mr_lines = statements (analysis w m),
      mr_sum_lines_not_covered = int (length (missing (analysis w m))),
      mr_lines_not_covered = missing (analysis w m)\<rparr>"

text \<open>
  The overall percentage: \<open>(total - uncovered) * 100 / total\<close> over the counted modules,
  and 0 when the total is 0.
\<close>

definition overall_percentage :: "world \<Rightarrow> project \<Rightarrow> number" where
  "overall_percentage w p =
     (if total_lines_all_modules w p = 0 then PyInt 0
      else py_quotient w
        ((total_lines_all_modules w p - uncovered_lines_all_modules w p) * 100)
        (total_lines_all_modules w p))"

subsection \<open>A run that reaches the reports\<close>

text \<open>
  The dictionary \<^verbatim>\<open>report\<close> when it is rendered (line 143); the flag
  \<^verbatim>\<open>coverage_too_low\<close> when it is tested (line 147), which is the flag the loop has
  left and lines 137 to 139 have updated with the overall percentage that line 134
  computed; and what follows \<^verbatim>\<open>coverage.stop()\<close> in a run whose task returned.
\<close>

definition coverage_report :: "world \<Rightarrow> project \<Rightarrow> report" where
  "coverage_report w p =
     \<lparr>module_names = report_modules (analysed w p),
      overall_coverage = overall_percentage w p\<rparr>"

definition too_low :: "world \<Rightarrow> project \<Rightarrow> bool" where
  "too_low w p =
     (case overall w (analysed w p) of
        Inr overall_cov \<Rightarrow> flag_after_overall p (analysed w p) overall_cov
      | Inl e \<Rightarrow> coverage_too_low (analysed w p))"

definition after_stop :: "world \<Rightarrow> project \<Rightarrow> string \<Rightarrow> string \<Rightarrow> event list" where
  "after_stop w p x name =
     events (analysed w p)
       @ [overall_log p name (overall_percentage w p),
          WriteReport (x @ ''.json'') (Structured (coverage_report w p))]
       @ fst (write_summary_report w (modules (analysed w p)) x)"

subsection \<open>Sample runs\<close>

text \<open>
  A package with an empty \<^verbatim>\<open>__init__\<close> module, a module \<^verbatim>\<open>pkg.mod\<close> with four lines of
  which two were executed, and a module that was discovered and never imported, under
  Python 2.
\<close>

definition sample_analysis :: "module_obj \<Rightarrow> analysis_result" where
  "sample_analysis m =
     (if m = ModuleObj 1
      then \<lparr>filename = ''pkg/mod.py'', statements = [1, 2, 3, 4], missing = [3, 4],
            missing_formatted = ''3-4''\<rparr>
      else \<lparr>filename = ''pkg/__init__.py'', statements = [], missing = [],
            missing_formatted = ''''\<rparr>)"

definition sample_world :: world where
  "sample_world =
     \<lparr>discover_modules = [''pkg'', ''pkg.mod'', ''pkg.unused''],
      sys_modules = [''pkg'' \<mapsto> ModuleObj 0, ''pkg.mod'' \<mapsto> ModuleObj 1],
      analysis = sample_analysis,
      execute_task = (\<lambda>t. None),
      report = (\<lambda>ms. Inr ''Name Stmts Miss Cover''),
      xml_report = (\<lambda>f. None),
      save = None,
      expand_path = (\<lambda>s. s),
      exitcode = 1,
      interpreter = Python2,
      float_of = (\<lambda>q. q)\<rparr>"

definition sample_project :: project where
  "sample_project =
     \<lparr>threshold_warn = 70, break_build = True, reload_modules = True, exceptions = [],
      fork = False\<rparr>"

text \<open>The same run when the instrumenter has no data for its text report.\<close>

definition no_data_world :: world where
  "no_data_world = sample_world\<lparr>report := (\<lambda>ms. Inl CoverageException)\<rparr>"

text \<open>
  A project with a module of three lines, two of them executed, and a module of eight
  lines, one of them executed, under Python 2. The quotients are 200 / 3, 100 / 8 and
  300 / 11, none of them an integer.
\<close>

definition thirds_analysis :: "module_obj \<Rightarrow> analysis_result" where
  "thirds_analysis m =
     (if m = ModuleObj 1
      then \<lparr>filename = ''a.py'', statements = [1, 2, 3], missing = [3],
            missing_formatted = ''3''\<rparr>
      else \<lparr>filename = ''b.py'', statements = [1, 2, 3, 4, 5, 6, 7, 8],
            missing = [2, 3, 4, 5, 6, 7, 8], missing_formatted = ''2-8''\<rparr>)"

definition thirds_world :: world where
  "thirds_world =
     sample_world\<lparr>discover_modules := [''a'', ''b''],
       sys_modules := [''a'' \<mapsto> ModuleObj 1, ''b'' \<mapsto> ModuleObj 2],
       analysis := thirds_analysis\<rparr>"

text \<open>
  The module of eight lines alone, under Python 3. The one quotient of this run is
  100 / 8, the float 12.5: a binary fraction, which the rounding leaves as it is.
\<close>

definition float_world :: world where
  "float_world =
     sample_world\<lparr>discover_modules := [''b''],
       sys_modules := [''b'' \<mapsto> ModuleObj 2],
       analysis := thirds_analysis,
       interpreter := Python3,
       float_of := (\<lambda>q. q)\<rparr>"

section \<open>Properties\<close>

subsection \<open>Arithmetic of percentages\<close>

lemma percentage_bounds:
  fixes c t :: int
  assumes "0 \<le> c" "c \<le> t" "0 < t"
  shows "0 \<le> c * 100 div t \<and> c * 100 div t \<le> 100"
proof
  show "0 \<le> c * 100 div t" using assms by (simp add: pos_imp_zdiv_nonneg_iff)
  have "c * 100 \<le> 100 * t" using assms by simp
  then have "c * 100 div t \<le> 100 * t div t" by (rule zdiv_mono1) (use assms in simp)
  then show "c * 100 div t \<le> 100" using assms by simp
qed

lemma percentage_bounds_rat:
  fixes c t :: int
  assumes "0 \<le> c" "c \<le> t" "0 < t"
  shows "(0::rat) \<le> of_int (c * 100) / of_int t \<and> (of_int (c * 100) / of_int t :: rat) \<le> 100"
proof
  show "(0::rat) \<le> of_int (c * 100) / of_int t" using assms by simp
  have "(of_int (c * 100) :: rat) \<le> 100 * of_int t" using assms by simp
  then show "(of_int (c * 100) / of_int t :: rat) \<le> 100"
    using assms by (simp add: pos_divide_le_eq)
qed

lemma py_quotient_bounds:
  fixes c t :: int
  assumes "0 \<le> c" "c \<le> t" "0 < t"
    and "interpreter w = Python3 \<longrightarrow>
           mono (float_of w) \<and> float_of w 0 = 0 \<and> float_of w 100 = 100"
  shows "0 \<le> number_value (py_quotient w (c * 100) t)
    \<and> number_value (py_quotient w (c * 100) t) \<le> 100"
proof (cases "interpreter w")
  case Python2
  from percentage_bounds [OF assms(1-3)] have "(0::rat) \<le> of_int (c * 100 div t)"
    "(of_int (c * 100 div t) :: rat) \<le> of_int 100"
    by (simp_all only: of_int_0_le_iff of_int_le_iff)
  with Python2 show ?thesis by (simp add: py_quotient_def)
next
  case Python3
  with assms(4) have r: "mono (float_of w)" "float_of w 0 = 0" "float_of w 100 = 100"
    by blast+
  let ?q = "of_int (c * 100) / of_int t :: rat"
  from percentage_bounds_rat [OF assms(1-3)] have q: "0 \<le> ?q" "?q \<le> 100" by blast+
  from r(1) q(1) have "float_of w 0 \<le> float_of w ?q" by (rule monoD)
  moreover from r(1) q(2) have "float_of w ?q \<le> float_of w 100" by (rule monoD)
  ultimately have "0 \<le> float_of w ?q" "float_of w ?q \<le> 100"
    by (simp_all only: r(2,3))
  with Python3 show ?thesis by (simp add: py_quotient_def)
qed

subsection \<open>The percentage of one module\<close>

lemma build_module_report_returns:
  "build_module_report w m =
     Inr (int (length (statements (analysis w m))), statements (analysis w m),
          int (length (missing (analysis w m))), missing (analysis w m),
          module_percentage w m)"
  by (simp add: build_module_report_def module_percentage_def py_div_def Let_def)

lemma module_percentage_range:
  assumes "length (missing (analysis w m)) \<le> length (statements (analysis w m))"
    and "interpreter w = Python3 \<longrightarrow>
           mono (float_of w) \<and> float_of w 0 = 0 \<and> float_of w 100 = 100"
  shows "0 \<le> number_value (module_percentage w m)
    \<and> number_value (module_percentage w m) \<le> 100"
proof -
  let ?t = "int (length (statements (analysis w m)))"
  let ?c = "?t - int (length (missing (analysis w m)))"
  have c: "0 \<le> ?c" "?c \<le> ?t" using assms(1) by simp_all
  show ?thesis
  proof (cases "?t = 0 \<or> ?c = 0")
    case True
    then show ?thesis by (auto simp add: module_percentage_def)
  next
    case False
    then have "0 < ?t" by simp
    from py_quotient_bounds [OF c this assms(2)] False show ?thesis
      by (simp add: module_percentage_def)
  qed
qed

text \<open>
  C9. The lines that the instrumenter reports as not executed are among the lines of the
  module, each once, so that 0 \<open>\<le>\<close> uncovered \<open>\<le>\<close> total. Then \<^verbatim>\<open>build_module_report\<close>
  returns, and its percentage lies between 0 and 100, under either interpreter (under
  Python 3 the rounding to a float is monotone and leaves 0 and 100 as they are). The
  percentage is
  exactly 100 when the module has no line and, the cases being read in the order of the
  source, exactly 0 when the module has lines and none of them is covered.
\<close>

theorem build_module_report_range:
  assumes "distinct (missing (analysis w m))"
    and "set (missing (analysis w m)) \<subseteq> set (statements (analysis w m))"
    and "interpreter w = Python3 \<longrightarrow>
           mono (float_of w) \<and> float_of w 0 = 0 \<and> float_of w 100 = 100"
  shows "length (missing (analysis w m)) \<le> length (statements (analysis w m))
    \<and> (\<exists>d. build_module_report w m = Inr d
          \<and> 0 \<le> number_value (data4 d) \<and> number_value (data4 d) \<le> 100
          \<and> (length (statements (analysis w m)) = 0 \<longrightarrow> data4 d = PyInt 100)
          \<and> (length (statements (analysis w m)) \<noteq> 0
               \<and> length (statements (analysis w m)) = length (missing (analysis w m))
               \<longrightarrow> data4 d = PyInt 0))"
proof -
  have "length (missing (analysis w m)) = card (set (missing (analysis w m)))"
    using assms(1) by (simp add: distinct_card)
  also have "\<dots> \<le> card (set (statements (analysis w m)))"
    using assms(2) by (intro card_mono) simp_all
  also have "\<dots> \<le> length (statements (analysis w m))" by (rule card_length)
  finally have bound: "length (missing (analysis w m)) \<le> length (statements (analysis w m))" .
  note range = module_percentage_range [OF bound assms(3)]
  have none: "length (statements (analysis w m)) = 0 \<longrightarrow> module_percentage w m = PyInt 100"
    by (simp add: module_percentage_def)
  have uncovered: "length (statements (analysis w m)) \<noteq> 0
      \<and> length (statements (analysis w m)) = length (missing (analysis w m))
      \<longrightarrow> module_percentage w m = PyInt 0"
    by (simp add: module_percentage_def)
  from bound range none uncovered show ?thesis
    by (simp add: build_module_report_returns data4_def)
qed

theorem build_module_report_range_witness:
  "distinct (missing (analysis float_world (ModuleObj 2)))
   \<and> set (missing (analysis float_world (ModuleObj 2)))
       \<subseteq> set (statements (analysis float_world (ModuleObj 2)))
   \<and> interpreter float_world = Python3
   \<and> mono (float_of float_world) \<and> float_of float_world 0 = 0
   \<and> float_of float_world 100 = 100
   \<and> build_module_report float_world (ModuleObj 2) =
       Inr (8, [1, 2, 3, 4, 5, 6, 7, 8], 7, [2, 3, 4, 5, 6, 7, 8], PyFloat (25 / 2))
   \<and> 0 \<le> number_value (PyFloat (25 / 2)) \<and> number_value (PyFloat (25 / 2)) \<le> 100
   \<and> build_module_report sample_world (ModuleObj 0) =
       Inr (0, [], 0, [], PyInt 100)"
proof -
  have h: "distinct (missing (analysis float_world (ModuleObj 2)))"
    "set (missing (analysis float_world (ModuleObj 2)))
       \<subseteq> set (statements (analysis float_world (ModuleObj 2)))"
    by (simp_all add: float_world_def sample_world_def thirds_analysis_def)
  have r: "interpreter float_world = Python3" "mono (float_of float_world)"
    "float_of float_world 0 = 0" "float_of float_world 100 = 100"
    by (simp_all add: float_world_def sample_world_def mono_def)
  then have g: "interpreter float_world = Python3 \<longrightarrow>
      mono (float_of float_world) \<and> float_of float_world 0 = 0
        \<and> float_of float_world 100 = 100"
    by blast
  have e: "build_module_report float_world (ModuleObj 2) =
      Inr (8, [1, 2, 3, 4, 5, 6, 7, 8], 7, [2, 3, 4, 5, 6, 7, 8], PyFloat (25 / 2))"
    by (simp add: build_module_report_def py_div_def py_quotient_def float_world_def
        sample_world_def thirds_analysis_def)
  have z: "build_module_report sample_world (ModuleObj 0) = Inr (0, [], 0, [], PyInt 100)"
    by (simp add: build_module_report_def sample_world_def sample_analysis_def)
  from build_module_report_range [OF h g] e
  have "0 \<le> number_value (PyFloat (25 / 2)) \<and> number_value (PyFloat (25 / 2)) \<le> 100"
    by (auto simp add: data4_def)
  with h r e z show ?thesis by blast
qed

subsection \<open>The loop over the discovered modules\<close>

lemma cover_module_not_loaded:
  assumes "sys_modules w n = None"
  shows "cover_module w p n st = st\<lparr>events := events st @ [Log Warn (not_imported_msg n)]\<rparr>"
  using assms by (simp add: cover_module_def)

lemma cover_module_loaded:
  assumes "sys_modules w n = Some m"
  shows "coverage_too_low (cover_module w p n st) =
           (if num_less (module_percentage w m) (threshold_warn p) \<and> n \<notin> set (exceptions p)
            then True else coverage_too_low st)"
    and "sum_lines (cover_module w p n st) =
           (if n \<in> set (exceptions p) then sum_lines st
            else sum_lines st + int (length (statements (analysis w m))))"
    and "sum_lines_not_covered (cover_module w p n st) =
           (if n \<in> set (exceptions p) then sum_lines_not_covered st
            else sum_lines_not_covered st + int (length (missing (analysis w m))))"
    and "modules (cover_module w p n st) = modules st @ [m]"
    and "report_modules (cover_module w p n st) = report_modules st @ [report_entry w n m]"
    and "events (cover_module w p n st) =
           events st @ [Analysis m]
             @ (if num_less (module_percentage w m) (threshold_warn p)
                then (if n \<in> set (exceptions p)
                      then [Log Info (below_msg (threshold_warn p) n (module_percentage w m))]
                      else [Log Warn (below_msg (threshold_warn p) n (module_percentage w m))])
                else [])"
  using assms
  by (simp_all add: cover_module_def Let_def build_module_report_returns report_entry_def
      data0_def data1_def data2_def data3_def data4_def)

lemma raised_cover_module: "raised (cover_module w p n st) = raised st"
  by (cases "sys_modules w n") (simp_all add: cover_module_def build_module_report_returns Let_def)

lemma cover_modules_Cons:
  assumes "raised st = None"
  shows "cover_modules w p (n # ns) st = cover_modules w p ns (cover_module w p n st)"
  using assms by (simp add: raised_cover_module)

lemma raised_cover_modules:
  assumes "raised st = None"
  shows "raised (cover_modules w p ns st) = None"
  using assms
proof (induction ns arbitrary: st)
  case Nil
  then show ?case by simp
next
  case (Cons n ns)
  from Cons.prems have "raised (cover_module w p n st) = None"
    by (simp add: raised_cover_module)
  from Cons.IH [OF this] show ?case by (simp only: cover_modules_Cons [OF Cons.prems])
qed

lemma sum_lines_cover_modules:
  assumes "raised st = None"
  shows "sum_lines (cover_modules w p ns st) =
     sum_lines st + (\<Sum>m\<leftarrow>counted w p ns. int (length (statements (analysis w m))))"
  using assms
proof (induction ns arbitrary: st)
  case Nil
  show ?case by simp
next
  case (Cons n ns)
  from Cons.prems have r: "raised (cover_module w p n st) = None"
    by (simp add: raised_cover_module)
  note step = cover_modules_Cons [OF Cons.prems] Cons.IH [OF r]
  show ?case
  proof (cases "sys_modules w n")
    case None
    then show ?thesis by (simp only: step) (simp add: cover_module_not_loaded)
  next
    case (Some m)
    then show ?thesis by (simp only: step) (simp add: cover_module_loaded)
  qed
qed

lemma sum_lines_not_covered_cover_modules:
  assumes "raised st = None"
  shows "sum_lines_not_covered (cover_modules w p ns st) =
     sum_lines_not_covered st + (\<Sum>m\<leftarrow>counted w p ns. int (length (missing (analysis w m))))"
  using assms
proof (induction ns arbitrary: st)
  case Nil
  show ?case by simp
next
  case (Cons n ns)
  from Cons.prems have r: "raised (cover_module w p n st) = None"
    by (simp add: raised_cover_module)
  note step = cover_modules_Cons [OF Cons.prems] Cons.IH [OF r]
  show ?case
  proof (cases "sys_modules w n")
    case None
    then show ?thesis by (simp only: step) (simp add: cover_module_not_loaded)
  next
    case (Some m)
    then show ?thesis by (simp only: step) (simp add: cover_module_loaded)
  qed
qed

lemma coverage_too_low_cover_modules:
  assumes "raised st = None"
  shows "coverage_too_low (cover_modules w p ns st) =
     (coverage_too_low st
      \<or> (\<exists>n m. n \<in> set ns \<and> n \<notin> set (exceptions p) \<and> sys_modules w n = Some m
            \<and> num_less (module_percentage w m) (threshold_warn p)))"
  using assms
proof (induction ns arbitrary: st)
  case Nil
  show ?case by simp
next
  case (Cons n ns)
  from Cons.prems have r: "raised (cover_module w p n st) = None"
    by (simp add: raised_cover_module)
  note step = cover_modules_Cons [OF Cons.prems] Cons.IH [OF r]
  show ?case
  proof (cases "sys_modules w n")
    case None
    then show ?thesis by (simp only: step) (auto simp add: cover_module_not_loaded)
  next
    case (Some m)
    then show ?thesis by (simp only: step) (auto simp add: cover_module_loaded)
  qed
qed

lemma report_modules_cover_modules:
  assumes "raised st = None"
  shows "set (report_modules (cover_modules w p ns st)) =
     set (report_modules st)
       \<union> {report_entry w n m | n m. n \<in> set ns \<and> sys_modules w n = Some m}"
  using assms
proof (induction ns arbitrary: st)
  case Nil
  show ?case by simp
next
  case (Cons n ns)
  from Cons.prems have r: "raised (cover_module w p n st) = None"
    by (simp add: raised_cover_module)
  note step = cover_modules_Cons [OF Cons.prems] Cons.IH [OF r]
  show ?case
  proof (cases "sys_modules w n")
    case None
    then show ?thesis by (simp only: step) (auto simp add: cover_module_not_loaded)
  next
    case (Some m)
    then show ?thesis by (simp only: step) (auto simp add: cover_module_loaded)
  qed
qed

lemma modules_cover_modules:
  assumes "raised st = None"
  shows "modules (cover_modules w p ns st) = modules st @ List.map_filter (sys_modules w) ns"
  using assms
proof (induction ns arbitrary: st)
  case Nil
  show ?case by (simp add: List.map_filter_simps)
next
  case (Cons n ns)
  from Cons.prems have r: "raised (cover_module w p n st) = None"
    by (simp add: raised_cover_module)
  note step = cover_modules_Cons [OF Cons.prems] Cons.IH [OF r]
  show ?case
  proof (cases "sys_modules w n")
    case None
    then show ?thesis
      by (simp only: step) (simp add: cover_module_not_loaded List.map_filter_simps)
  next
    case (Some m)
    then show ?thesis
      by (simp only: step) (simp add: cover_module_loaded List.map_filter_simps)
  qed
qed

lemma events_cover_modules:
  assumes "raised st = None" and "e \<in> set (events (cover_modules w p ns st))"
  shows "e \<in> set (events st)
     \<or> (\<exists>n m. n \<in> set ns \<and> sys_modules w n = Some m \<and> e = Analysis m)
     \<or> (\<exists>l s. e = Log l s)"
  using assms
proof (induction ns arbitrary: st)
  case Nil
  then show ?case by simp
next
  case (Cons n ns)
  from Cons.prems(1) have r: "raised (cover_module w p n st) = None"
    by (simp add: raised_cover_module)
  from Cons.prems(2) have "e \<in> set (events (cover_modules w p ns (cover_module w p n st)))"
    by (simp only: cover_modules_Cons [OF Cons.prems(1)])
  note ih = Cons.IH [OF r this]
  show ?case
  proof (cases "sys_modules w n")
    case None
    with ih show ?thesis by (auto simp add: cover_module_not_loaded)
  next
    case (Some m)
    with ih show ?thesis by (auto simp add: cover_module_loaded split: if_splits)
  qed
qed

lemma events_cover_modules_mono:
  assumes "raised st = None"
  shows "set (events st) \<subseteq> set (events (cover_modules w p ns st))"
  using assms
proof (induction ns arbitrary: st)
  case Nil
  show ?case by simp
next
  case (Cons n ns)
  from Cons.prems have r: "raised (cover_module w p n st) = None"
    by (simp add: raised_cover_module)
  have "set (events st) \<subseteq> set (events (cover_module w p n st))"
    by (cases "sys_modules w n") (auto simp add: cover_module_not_loaded cover_module_loaded)
  with Cons.IH [OF r]
  have "set (events st) \<subseteq> set (events (cover_modules w p ns (cover_module w p n st)))"
    by blast
  then show ?case by (simp only: cover_modules_Cons [OF Cons.prems])
qed

lemma analysis_cover_modules:
  assumes "raised st = None" and "n \<in> set ns" and "sys_modules w n = Some m"
  shows "Analysis m \<in> set (events (cover_modules w p ns st))"
  using assms
proof (induction ns arbitrary: st)
  case Nil
  then show ?case by simp
next
  case (Cons k ns)
  from Cons.prems(1) have r: "raised (cover_module w p k st) = None"
    by (simp add: raised_cover_module)
  show ?case
  proof (cases "k = n")
    case True
    with Cons.prems have "Analysis m \<in> set (events (cover_module w p k st))"
      by (simp add: cover_module_loaded)
    with events_cover_modules_mono [OF r, of w p ns]
    have "Analysis m \<in> set (events (cover_modules w p ns (cover_module w p k st)))"
      by blast
    then show ?thesis by (simp only: cover_modules_Cons [OF Cons.prems(1)])
  next
    case False
    with Cons.prems have "n \<in> set ns" by simp
    from Cons.IH [OF r this Cons.prems(3)] show ?thesis
      by (simp only: cover_modules_Cons [OF Cons.prems(1)])
  qed
qed

lemma raised_analysed: "raised (analysed w p) = None"
proof -
  have i: "raised loop_init = None" by (simp add: loop_init_def)
  show ?thesis by (simp only: analysed_def raised_cover_modules [OF i])
qed

lemma overall_analysed: "overall w (analysed w p) = Inr (overall_percentage w p)"
proof -
  have i: "raised loop_init = None" by (simp add: loop_init_def)
  have s: "sum_lines (analysed w p) = total_lines_all_modules w p"
    by (simp only: analysed_def sum_lines_cover_modules [OF i])
      (simp add: total_lines_all_modules_def loop_init_def)
  have u: "sum_lines_not_covered (analysed w p) = uncovered_lines_all_modules w p"
    by (simp only: analysed_def sum_lines_not_covered_cover_modules [OF i])
      (simp add: uncovered_lines_all_modules_def loop_init_def)
  show ?thesis by (simp add: overall_def overall_percentage_def py_div_def s u)
qed

lemma too_low_eq: "too_low w p = flag_after_overall p (analysed w p) (overall_percentage w p)"
  by (simp add: too_low_def overall_analysed)

lemma report_modules_analysed:
  "set (module_names (coverage_report w p)) =
     {report_entry w n m | n m. n \<in> set (discover_modules w) \<and> sys_modules w n = Some m}"
proof -
  have i: "raised loop_init = None" by (simp add: loop_init_def)
  show ?thesis
    by (simp only: coverage_report_def analysed_def report.simps
        report_modules_cover_modules [OF i])
      (simp add: loop_init_def)
qed

lemma coverage_too_low_analysed:
  "coverage_too_low (analysed w p) =
     (\<exists>n m. n \<in> set (discover_modules w) \<and> n \<notin> set (exceptions p)
        \<and> sys_modules w n = Some m
        \<and> num_less (module_percentage w m) (threshold_warn p))"
proof -
  have i: "raised loop_init = None" by (simp add: loop_init_def)
  show ?thesis
    by (simp only: analysed_def coverage_too_low_cover_modules [OF i])
      (simp add: loop_init_def)
qed

lemma modules_analysed: "modules (analysed w p) = List.map_filter (sys_modules w) (discover_modules w)"
proof -
  have i: "raised loop_init = None" by (simp add: loop_init_def)
  show ?thesis
    by (simp only: analysed_def modules_cover_modules [OF i]) (simp add: loop_init_def)
qed

subsection \<open>The percentage in the report\<close>

text \<open>
  C1, as stated, has the quotient computed in floor division and the percentage always an
  integer. Under Python 3, which the plugin supports, \<^verbatim>\<open>/\<close> is true division: for a
  module of eight lines with one line covered \<^verbatim>\<open>build_module_report\<close> returns the float
  12.5, not the integer 12 of the floor division.
\<close>

theorem build_module_report_float:
  "interpreter float_world = Python3
   \<and> build_module_report float_world (ModuleObj 2) =
       Inr (8, [1, 2, 3, 4, 5, 6, 7, 8], 7, [2, 3, 4, 5, 6, 7, 8], PyFloat (25 / 2))
   \<and> PyFloat (25 / 2) \<noteq> PyInt ((8 - 7) * 100 div 8)
   \<and> number_value (PyFloat (25 / 2)) \<noteq> of_int ((8 - 7) * 100 div 8)"
  by (simp add: build_module_report_def py_div_def py_quotient_def float_world_def
      sample_world_def thirds_analysis_def)

text \<open>
  C1, amended. \<^verbatim>\<open>build_module_report\<close> returns, and its percentage is 100 when the
  module has no executable line; otherwise 0 when no line is covered; otherwise
  \<open>covered * 100 / total\<close> as the interpreter divides two integers: in floor division
  under Python 2, where the percentage is an integer, and in true division under
  Python 3, where it is a float. Every entry of the structured report carries the
  percentage that belongs to its two line counts.
\<close>

theorem build_module_report_coverage:
  "build_module_report w m =
     (let lines_total = int (length (statements (analysis w m)));
          lines_covered = lines_total - int (length (missing (analysis w m)))
      in Inr (lines_total, statements (analysis w m),
              int (length (missing (analysis w m))), missing (analysis w m),
              if lines_total = 0 then PyInt 100
              else if lines_covered = 0 then PyInt 0
              else (case interpreter w of
                      Python2 \<Rightarrow> PyInt (lines_covered * 100 div lines_total)
                    | Python3 \<Rightarrow>
                        PyFloat (float_of w
                          (of_int (lines_covered * 100) / of_int lines_total)))))
   \<and> (\<forall>r \<in> set (module_names (coverage_report w p)).
         mr_coverage r =
           (if mr_sum_lines r = 0 then PyInt 100
            else if mr_sum_lines r - mr_sum_lines_not_covered r = 0 then PyInt 0
            else (case interpreter w of
                    Python2 \<Rightarrow>
                      PyInt ((mr_sum_lines r - mr_sum_lines_not_covered r) * 100
                               div mr_sum_lines r)
                  | Python3 \<Rightarrow>
                      PyFloat (float_of w
                        (of_int ((mr_sum_lines r - mr_sum_lines_not_covered r) * 100)
                           / of_int (mr_sum_lines r))))))"
proof
  show "build_module_report w m =
     (let lines_total = int (length (statements (analysis w m)));
          lines_covered = lines_total - int (length (missing (analysis w m)))
      in Inr (lines_total, statements (analysis w m),
              int (length (missing (analysis w m))), missing (analysis w m),
              if lines_total = 0 then PyInt 100
              else if lines_covered = 0 then PyInt 0
              else (case interpreter w of
                      Python2 \<Rightarrow> PyInt (lines_covered * 100 div lines_total)
                    | Python3 \<Rightarrow>
                        PyFloat (float_of w
                          (of_int (lines_covered * 100) / of_int lines_total)))))"
    by (cases "interpreter w")
      (simp_all add: build_module_report_def py_div_def py_quotient_def Let_def algebra_simps)
next
  show "\<forall>r \<in> set (module_names (coverage_report w p)).
      mr_coverage r =
        (if mr_sum_lines r = 0 then PyInt 100
         else if mr_sum_lines r - mr_sum_lines_not_covered r = 0 then PyInt 0
         else (case interpreter w of
                 Python2 \<Rightarrow>
                   PyInt ((mr_sum_lines r - mr_sum_lines_not_covered r) * 100
                            div mr_sum_lines r)
               | Python3 \<Rightarrow>
                   PyFloat (float_of w
                     (of_int ((mr_sum_lines r - mr_sum_lines_not_covered r) * 100)
                        / of_int (mr_sum_lines r)))))"
  proof
    fix r
    assume "r \<in> set (module_names (coverage_report w p))"
    then obtain n k where r: "r = report_entry w n k"
      by (auto simp add: report_modules_analysed)
    show "mr_coverage r =
        (if mr_sum_lines r = 0 then PyInt 100
         else if mr_sum_lines r - mr_sum_lines_not_covered r = 0 then PyInt 0
         else (case interpreter w of
                 Python2 \<Rightarrow>
                   PyInt ((mr_sum_lines r - mr_sum_lines_not_covered r) * 100
                            div mr_sum_lines r)
               | Python3 \<Rightarrow>
                   PyFloat (float_of w
                     (of_int ((mr_sum_lines r - mr_sum_lines_not_covered r) * 100)
                        / of_int (mr_sum_lines r)))))"
      unfolding r
      by (cases "interpreter w")
        (simp_all add: report_entry_def module_percentage_def py_quotient_def algebra_simps)
  qed
qed

theorem build_module_report_coverage_witness:
  "interpreter thirds_world = Python2
   \<and> report_entry thirds_world ''a'' (ModuleObj 1)
       \<in> set (module_names (coverage_report thirds_world sample_project))
   \<and> mr_sum_lines (report_entry thirds_world ''a'' (ModuleObj 1)) = 3
   \<and> mr_sum_lines_not_covered (report_entry thirds_world ''a'' (ModuleObj 1)) = 1
   \<and> mr_coverage (report_entry thirds_world ''a'' (ModuleObj 1)) = PyInt 66
   \<and> build_module_report thirds_world (ModuleObj 1) = Inr (3, [1, 2, 3], 1, [3], PyInt 66)"
proof -
  let ?r = "report_entry thirds_world ''a'' (ModuleObj 1)"
  have i: "interpreter thirds_world = Python2"
    by (simp add: thirds_world_def sample_world_def)
  have "''a'' \<in> set (discover_modules thirds_world)
      \<and> sys_modules thirds_world ''a'' = Some (ModuleObj 1)"
    by (simp add: thirds_world_def)
  then have mem: "?r \<in> set (module_names (coverage_report thirds_world sample_project))"
    unfolding report_modules_analysed by blast
  have counts: "mr_sum_lines ?r = 3" "mr_sum_lines_not_covered ?r = 1"
    by (simp_all add: report_entry_def thirds_world_def thirds_analysis_def)
  note c = build_module_report_coverage [of thirds_world "ModuleObj 1" sample_project]
  from c mem
  have "mr_coverage ?r =
      (if mr_sum_lines ?r = 0 then PyInt 100
       else if mr_sum_lines ?r - mr_sum_lines_not_covered ?r = 0 then PyInt 0
       else (case interpreter thirds_world of
               Python2 \<Rightarrow>
                 PyInt ((mr_sum_lines ?r - mr_sum_lines_not_covered ?r) * 100
                          div mr_sum_lines ?r)
             | Python3 \<Rightarrow>
                 PyFloat (float_of thirds_world
                   (of_int ((mr_sum_lines ?r - mr_sum_lines_not_covered ?r) * 100)
                      / of_int (mr_sum_lines ?r)))))"
    by blast
  then have v: "mr_coverage ?r = PyInt 66" by (simp only: counts i) simp
  have b: "build_module_report thirds_world (ModuleObj 1) =
      Inr (3, [1, 2, 3], 1, [3], PyInt 66)"
    by (simp add: build_module_report_def py_div_def py_quotient_def thirds_world_def
        sample_world_def thirds_analysis_def)
  from i mem counts v b show ?thesis by blast
qed

subsection \<open>The trace of \<^verbatim>\<open>do_coverage\<close>\<close>

lemma reimport_source_modules_events:
  assumes "e \<in> set (reimport_source_modules w p)"
  shows "reload_modules p
     \<and> ((\<exists>s. e = Log Debug s)
        \<or> (\<exists>n m. n \<in> set (discover_modules w) \<and> sys_modules w n = Some m \<and> e = Reload m))"
  using assms
  by (auto simp add: reimport_source_modules_def reload_one_def
      split: if_splits option.splits)

lemma reload_reimport_source_modules:
  assumes "reload_modules p" "n \<in> set (discover_modules w)" "sys_modules w n = Some m"
  shows "Reload m \<in> set (reimport_source_modules w p)"
proof -
  from assms(3) have "Reload m \<in> set (reload_one w n)" by (simp add: reload_one_def)
  with assms(1,2) show ?thesis by (auto simp add: reimport_source_modules_def)
qed

lemma write_summary_report_events:
  assumes "e \<in> set (fst (write_summary_report w ms x))"
  shows "e = Report ms \<or> (\<exists>f. e = XmlReport f) \<or> e = Save \<or> (\<exists>s. e = WriteReport x (Summary s))"
  using assms
  by (auto simp add: write_summary_report_def Let_def split: sum.splits option.splits if_splits)

lemma do_coverage_task_raises:
  assumes "execute_task w t = Some e"
  shows "do_coverage w p x name t =
           ([Erase, Start, SetProperty ''__running_coverage'' True, ExecuteTask t], Inl e)"
  using assms by (simp add: do_coverage_def start_coverage_def)

lemma do_coverage_task_returns:
  assumes "execute_task w t = None"
  shows "fst (do_coverage w p x name t) =
           [Erase, Start, SetProperty ''__running_coverage'' True, ExecuteTask t,
            SetProperty ''__running_coverage'' False]
           @ reimport_source_modules w p @ [Stop]
           @ events (analysed w p)
           @ [overall_log p name (overall_percentage w p),
              WriteReport (x @ ''.json'') (Structured (coverage_report w p))]
           @ fst (write_summary_report w (modules (analysed w p)) x)"
    and "snd (do_coverage w p x name t) =
           (case snd (write_summary_report w (modules (analysed w p)) x) of
              Inl e \<Rightarrow> Inl e
            | Inr u \<Rightarrow> if too_low w p \<and> break_build p then Inl (too_low_failure p) else Inr ())"
  using assms
  by (simp_all add: do_coverage_def start_coverage_def stop_coverage_def Let_def
      raised_analysed overall_analysed coverage_report_def too_low_eq
      split: sum.splits)

lemma analysed_events:
  assumes "e \<in> set (events (analysed w p))"
  shows "(\<exists>n m. n \<in> set (discover_modules w) \<and> sys_modules w n = Some m \<and> e = Analysis m)
     \<or> (\<exists>l s. e = Log l s)"
proof -
  have i: "raised loop_init = None" by (simp add: loop_init_def)
  from assms have "e \<in> set (events (cover_modules w p (discover_modules w) loop_init))"
    by (simp only: analysed_def)
  from events_cover_modules [OF i this] show ?thesis by (simp add: loop_init_def)
qed

lemma overall_log_is_log: "\<exists>l s. overall_log p name c = Log l s"
  by (simp add: overall_log_def)

lemma after_stop_events:
  assumes "e \<in> set (after_stop w p x name)"
  shows "(\<exists>m. e = Analysis m) \<or> (\<exists>l s. e = Log l s) \<or> (\<exists>f b. e = WriteReport f b)
     \<or> (\<exists>ms. e = Report ms) \<or> (\<exists>f. e = XmlReport f) \<or> e = Save"
proof -
  from assms consider "e \<in> set (events (analysed w p))"
    | "e = overall_log p name (overall_percentage w p)"
    | "e = WriteReport (x @ ''.json'') (Structured (coverage_report w p))"
    | "e \<in> set (fst (write_summary_report w (modules (analysed w p)) x))"
    by (auto simp add: after_stop_def)
  then show ?thesis
  proof cases
    case 1
    from analysed_events [OF this] show ?thesis by auto
  next
    case 2
    with overall_log_is_log [of p name "overall_percentage w p"] show ?thesis by auto
  next
    case 3
    then show ?thesis by simp
  next
    case 4
    from write_summary_report_events [OF this] show ?thesis by auto
  qed
qed

lemma running_coverage_after_append:
  "running_coverage_after v (xs @ ys) = running_coverage_after (running_coverage_after v xs) ys"
  by (induction v xs rule: running_coverage_after.induct) simp_all

lemma running_coverage_after_unwritten:
  assumes "\<And>k b. SetProperty k b \<notin> set xs"
  shows "running_coverage_after v xs = v"
  using assms by (induction v xs rule: running_coverage_after.induct) auto

subsection \<open>Reloading the modules\<close>

text \<open>
  C2, as stated, places the reload after the instrumenter has stopped. In the sample run
  the module \<^verbatim>\<open>pkg.mod\<close> is reloaded among the events that precede \<^verbatim>\<open>coverage.stop()\<close>:
  \<^verbatim>\<open>_stop_coverage\<close> reimports the source modules first and stops the instrumenter
  afterwards, so that the reloaded module bodies are measured.
\<close>

theorem reload_precedes_stop:
  "Reload (ModuleObj 1)
     \<in> set (takeWhile (\<lambda>e. e \<noteq> Stop)
         (fst (do_coverage sample_world sample_project ''coverage'' ''coverage''
            ''run_unit_tests'')))
   \<and> Reload (ModuleObj 1)
     \<notin> set (dropWhile (\<lambda>e. e \<noteq> Stop)
         (fst (do_coverage sample_world sample_project ''coverage'' ''coverage''
            ''run_unit_tests'')))"
proof -
  have t: "execute_task sample_world ''run_unit_tests'' = None"
    by (simp add: sample_world_def)
  have r: "reimport_source_modules sample_world sample_project =
      [Log Debug ''Reloading module pkg'', Reload (ModuleObj 0),
       Log Debug ''Reloading module pkg.mod'', Reload (ModuleObj 1),
       Log Debug ''Reloading module pkg.unused'']"
    by (simp add: reimport_source_modules_def reload_one_def sample_world_def
        sample_project_def)
  have a: "Reload (ModuleObj 1)
      \<notin> set (after_stop sample_world sample_project ''coverage'' ''coverage'')"
    using after_stop_events [of "Reload (ModuleObj 1)"] by auto
  show ?thesis
    using a by (simp add: do_coverage_task_returns(1) [OF t] r after_stop_def)
qed

text \<open>
  C2, amended. When the target task has returned, the trace of \<^verbatim>\<open>do_coverage\<close> is: the
  start of the instrumenter, the task between the two writes of \<^verbatim>\<open>__running_coverage\<close>,
  the reimport of the source modules, \<^verbatim>\<open>coverage.stop()\<close>, and then the analysis and the
  reports. With the reload flag set, every discovered module that is in the module table
  is reloaded in the reimport, so after the task and before the instrumenter stops, and
  before any analysis is requested, and nothing is reloaded later; with the flag unset
  no module is reloaded at all.
\<close>

theorem reload_before_stop_and_analysis:
  "(execute_task w t = None \<longrightarrow>
      fst (do_coverage w p x name t) =
        [Erase, Start, SetProperty ''__running_coverage'' True, ExecuteTask t,
         SetProperty ''__running_coverage'' False]
        @ reimport_source_modules w p @ [Stop] @ after_stop w p x name)
   \<and> (reload_modules p \<longrightarrow>
        (\<forall>n m. n \<in> set (discover_modules w) \<and> sys_modules w n = Some m
           \<longrightarrow> Reload m \<in> set (reimport_source_modules w p)))
   \<and> (\<forall>m. Analysis m \<notin> set (reimport_source_modules w p))
   \<and> (\<forall>m. Reload m \<notin> set (after_stop w p x name))
   \<and> (\<forall>n m. n \<in> set (discover_modules w) \<and> sys_modules w n = Some m
         \<longrightarrow> Analysis m \<in> set (after_stop w p x name))
   \<and> (\<not> reload_modules p \<longrightarrow> (\<forall>m. Reload m \<notin> set (fst (do_coverage w p x name t))))"
proof -
  have shape: "execute_task w t = None \<longrightarrow>
      fst (do_coverage w p x name t) =
        [Erase, Start, SetProperty ''__running_coverage'' True, ExecuteTask t,
         SetProperty ''__running_coverage'' False]
        @ reimport_source_modules w p @ [Stop] @ after_stop w p x name"
    by (simp add: do_coverage_task_returns(1) after_stop_def)
  have reloaded: "reload_modules p \<longrightarrow>
      (\<forall>n m. n \<in> set (discover_modules w) \<and> sys_modules w n = Some m
         \<longrightarrow> Reload m \<in> set (reimport_source_modules w p))"
    using reload_reimport_source_modules by blast
  have no_analysis: "\<forall>m. Analysis m \<notin> set (reimport_source_modules w p)"
    using reimport_source_modules_events by blast
  have no_reload: "\<forall>m. Reload m \<notin> set (after_stop w p x name)"
    using after_stop_events by blast
  have analysed_later: "\<forall>n m. n \<in> set (discover_modules w) \<and> sys_modules w n = Some m
      \<longrightarrow> Analysis m \<in> set (after_stop w p x name)"
  proof (intro allI impI)
    fix n m
    assume "n \<in> set (discover_modules w) \<and> sys_modules w n = Some m"
    then have n: "n \<in> set (discover_modules w)" and m: "sys_modules w n = Some m"
      by blast+
    have i: "raised loop_init = None" by (simp add: loop_init_def)
    from analysis_cover_modules [OF i n m]
    have "Analysis m \<in> set (events (cover_modules w p (discover_modules w) loop_init))" .
    then have "Analysis m \<in> set (events (analysed w p))"
      by (simp only: analysed_def)
    then show "Analysis m \<in> set (after_stop w p x name)"
      by (simp add: after_stop_def)
  qed
  have unset: "\<not> reload_modules p \<longrightarrow> (\<forall>m. Reload m \<notin> set (fst (do_coverage w p x name t)))"
  proof (intro impI allI)
    fix m
    assume off: "\<not> reload_modules p"
    then have none: "reimport_source_modules w p = []"
      by (simp add: reimport_source_modules_def)
    show "Reload m \<notin> set (fst (do_coverage w p x name t))"
    proof (cases "execute_task w t")
      case None
      with shape none no_reload show ?thesis by simp
    next
      case (Some e)
      then show ?thesis by (simp add: do_coverage_task_raises)
    qed
  qed
  from shape reloaded no_analysis no_reload analysed_later unset show ?thesis by blast
qed

theorem reload_before_stop_and_analysis_witness:
  "execute_task sample_world ''run_unit_tests'' = None
   \<and> reload_modules sample_project
   \<and> ''pkg.mod'' \<in> set (discover_modules sample_world)
   \<and> sys_modules sample_world ''pkg.mod'' = Some (ModuleObj 1)
   \<and> Reload (ModuleObj 1) \<in> set (reimport_source_modules sample_world sample_project)
   \<and> Analysis (ModuleObj 1)
       \<in> set (after_stop sample_world sample_project ''coverage'' ''coverage'')
   \<and> fst (do_coverage sample_world sample_project ''coverage'' ''coverage'' ''run_unit_tests'') =
       [Erase, Start, SetProperty ''__running_coverage'' True, ExecuteTask ''run_unit_tests'',
        SetProperty ''__running_coverage'' False]
       @ reimport_source_modules sample_world sample_project @ [Stop]
       @ after_stop sample_world sample_project ''coverage'' ''coverage''"
proof -
  have h: "execute_task sample_world ''run_unit_tests'' = None"
    "reload_modules sample_project"
    "''pkg.mod'' \<in> set (discover_modules sample_world)"
    "sys_modules sample_world ''pkg.mod'' = Some (ModuleObj 1)"
    by (simp_all add: sample_world_def sample_project_def)
  with reload_before_stop_and_analysis [of sample_world "''run_unit_tests''" sample_project
      "''coverage''" "''coverage''"]
  show ?thesis by blast
qed

subsection \<open>The overall percentage and the flag\<close>

text \<open>
  C4. The computation of the overall percentage (lines 131 to 134) returns on the state
  the loop leaves: no division by zero is raised. Its value is
  \<open>(total - uncovered) * 100 / total\<close>, as the interpreter divides two integers, the two
  sums taken over the analysed modules (discovered and loaded) that are not in the
  exception list, and it is the integer 0 when the sum of the line counts is 0. It is the
  value written to the report \<^verbatim>\<open><prefix>.json\<close> when the task returns.
\<close>

theorem overall_coverage_formula:
  "overall w (analysed w p) = Inr (overall_coverage (coverage_report w p))
   \<and> overall_coverage (coverage_report w p) =
       (if total_lines_all_modules w p = 0 then PyInt 0
        else (case interpreter w of
                Python2 \<Rightarrow>
                  PyInt ((total_lines_all_modules w p - uncovered_lines_all_modules w p) * 100
                           div total_lines_all_modules w p)
              | Python3 \<Rightarrow>
                  PyFloat (float_of w
                    (of_int ((total_lines_all_modules w p - uncovered_lines_all_modules w p)
                               * 100)
                       / of_int (total_lines_all_modules w p)))))
   \<and> (execute_task w t = None \<longrightarrow>
        WriteReport (x @ ''.json'') (Structured (coverage_report w p))
          \<in> set (fst (do_coverage w p x name t)))"
proof -
  have returns: "overall w (analysed w p) = Inr (overall_coverage (coverage_report w p))"
    by (simp add: overall_analysed coverage_report_def)
  have formula: "overall_coverage (coverage_report w p) =
      (if total_lines_all_modules w p = 0 then PyInt 0
       else (case interpreter w of
               Python2 \<Rightarrow>
                 PyInt ((total_lines_all_modules w p - uncovered_lines_all_modules w p) * 100
                          div total_lines_all_modules w p)
             | Python3 \<Rightarrow>
                 PyFloat (float_of w
                   (of_int ((total_lines_all_modules w p - uncovered_lines_all_modules w p)
                              * 100)
                      / of_int (total_lines_all_modules w p)))))"
    by (cases "interpreter w")
      (simp_all add: coverage_report_def overall_percentage_def py_quotient_def algebra_simps)
  have written: "execute_task w t = None \<longrightarrow>
      WriteReport (x @ ''.json'') (Structured (coverage_report w p))
        \<in> set (fst (do_coverage w p x name t))"
    by (simp add: do_coverage_task_returns(1))
  from returns formula written show ?thesis by blast
qed

theorem overall_coverage_formula_witness:
  "execute_task thirds_world ''run_unit_tests'' = None
   \<and> interpreter thirds_world = Python2
   \<and> total_lines_all_modules thirds_world sample_project = 11
   \<and> uncovered_lines_all_modules thirds_world sample_project = 8
   \<and> overall thirds_world (analysed thirds_world sample_project) = Inr (PyInt 27)
   \<and> WriteReport ''coverage.json'' (Structured (coverage_report thirds_world sample_project))
       \<in> set (fst (do_coverage thirds_world sample_project ''coverage'' ''coverage''
            ''run_unit_tests''))
   \<and> total_lines_all_modules sample_world (sample_project\<lparr>exceptions := [''pkg.mod'']\<rparr>) = 0
   \<and> overall sample_world (analysed sample_world (sample_project\<lparr>exceptions := [''pkg.mod'']\<rparr>))
       = Inr (PyInt 0)"
proof -
  let ?q = "sample_project\<lparr>exceptions := [''pkg.mod'']\<rparr>"
  have t: "execute_task thirds_world ''run_unit_tests'' = None"
    by (simp add: thirds_world_def sample_world_def)
  have i: "interpreter thirds_world = Python2"
    by (simp add: thirds_world_def sample_world_def)
  have s: "total_lines_all_modules thirds_world sample_project = 11"
    "uncovered_lines_all_modules thirds_world sample_project = 8"
    by (simp_all add: total_lines_all_modules_def uncovered_lines_all_modules_def
        thirds_world_def sample_project_def thirds_analysis_def)
  have z: "total_lines_all_modules sample_world ?q = 0"
    by (simp add: total_lines_all_modules_def sample_world_def sample_project_def
        sample_analysis_def)
  note a = overall_coverage_formula [of thirds_world sample_project "''run_unit_tests''"
      "''coverage''" "''coverage''"]
  note b = overall_coverage_formula [of sample_world ?q]
  from a have "overall_coverage (coverage_report thirds_world sample_project) = PyInt 27"
    by (simp add: s i)
  with a have v: "overall thirds_world (analysed thirds_world sample_project) = Inr (PyInt 27)"
    by simp
  from a t have r: "WriteReport ''coverage.json''
      (Structured (coverage_report thirds_world sample_project))
      \<in> set (fst (do_coverage thirds_world sample_project ''coverage'' ''coverage''
           ''run_unit_tests''))"
    by simp
  from b have "overall_coverage (coverage_report sample_world ?q) = PyInt 0"
    by (simp add: z)
  with b have g: "overall sample_world (analysed sample_world ?q) = Inr (PyInt 0)"
    by simp
  from t i s v r z g show ?thesis by blast
qed

text \<open>
  C5. A module in the exception list does not set the flag: its iteration of the loop
  leaves \<^verbatim>\<open>coverage_too_low\<close> as it was, and when its percentage is below the threshold
  the message is logged at info level, not as a warning. After the loop the flag is set
  exactly when some analysed module outside the exception list is below the threshold.
  The exempted module is in the structured report all the same, with its percentage, its
  line counts and its lines, as \<^verbatim>\<open>build_module_report\<close> returns them.
\<close>

theorem exempted_module_never_fails:
  assumes "n \<in> set (exceptions p)" and "sys_modules w n = Some m"
  shows "coverage_too_low (cover_module w p n st) = coverage_too_low st
    \<and> (num_less (module_percentage w m) (threshold_warn p) \<longrightarrow>
         events (cover_module w p n st) =
           events st @ [Analysis m,
             Log Info (below_msg (threshold_warn p) n (module_percentage w m))])
    \<and> coverage_too_low (analysed w p) =
         (\<exists>n' m'. n' \<in> set (discover_modules w) \<and> n' \<notin> set (exceptions p)
            \<and> sys_modules w n' = Some m'
            \<and> num_less (module_percentage w m') (threshold_warn p))
    \<and> (n \<in> set (discover_modules w) \<longrightarrow>
         report_entry w n m \<in> set (module_names (coverage_report w p)))
    \<and> build_module_report w m =
         Inr (mr_sum_lines (report_entry w n m), mr_lines (report_entry w n m),
              mr_sum_lines_not_covered (report_entry w n m),
              mr_lines_not_covered (report_entry w n m), module_percentage w m)
    \<and> mr_coverage (report_entry w n m) = module_percentage w m"
proof -
  have flag: "coverage_too_low (cover_module w p n st) = coverage_too_low st"
    using assms by (simp add: cover_module_loaded(1))
  have logged: "num_less (module_percentage w m) (threshold_warn p) \<longrightarrow>
      events (cover_module w p n st) =
        events st @ [Analysis m,
          Log Info (below_msg (threshold_warn p) n (module_percentage w m))]"
    using assms by (simp add: cover_module_loaded(6))
  note after = coverage_too_low_analysed [of w p]
  have reported: "n \<in> set (discover_modules w) \<longrightarrow>
      report_entry w n m \<in> set (module_names (coverage_report w p))"
    using assms(2) by (auto simp add: report_modules_analysed)
  have data: "build_module_report w m =
      Inr (mr_sum_lines (report_entry w n m), mr_lines (report_entry w n m),
           mr_sum_lines_not_covered (report_entry w n m),
           mr_lines_not_covered (report_entry w n m), module_percentage w m)"
    by (simp add: build_module_report_returns report_entry_def)
  have pct: "mr_coverage (report_entry w n m) = module_percentage w m"
    by (simp add: report_entry_def)
  from flag logged after reported data pct show ?thesis by blast
qed

theorem exempted_module_never_fails_witness:
  "''pkg.mod'' \<in> set (exceptions (sample_project\<lparr>exceptions := [''pkg.mod'']\<rparr>))
   \<and> sys_modules sample_world ''pkg.mod'' = Some (ModuleObj 1)
   \<and> module_percentage sample_world (ModuleObj 1) = PyInt 50
   \<and> threshold_warn (sample_project\<lparr>exceptions := [''pkg.mod'']\<rparr>) = 70
   \<and> ''pkg.mod'' \<in> set (discover_modules sample_world)
   \<and> \<not> coverage_too_low (cover_module sample_world
         (sample_project\<lparr>exceptions := [''pkg.mod'']\<rparr>) ''pkg.mod'' loop_init)
   \<and> events (cover_module sample_world (sample_project\<lparr>exceptions := [''pkg.mod'']\<rparr>)
         ''pkg.mod'' loop_init) =
       [Analysis (ModuleObj 1), Log Info ''Test coverage below 70% for pkg.mod: 50%'']
   \<and> \<lparr>mr_module = ''pkg.mod'', mr_coverage = PyInt 50, mr_sum_lines = 4,
       mr_lines = [1, 2, 3, 4], mr_sum_lines_not_covered = 2, mr_lines_not_covered = [3, 4]\<rparr>
       \<in> set (module_names (coverage_report sample_world
            (sample_project\<lparr>exceptions := [''pkg.mod'']\<rparr>)))"
proof -
  let ?p = "sample_project\<lparr>exceptions := [''pkg.mod'']\<rparr>"
  have h: "''pkg.mod'' \<in> set (exceptions ?p)"
    "sys_modules sample_world ''pkg.mod'' = Some (ModuleObj 1)"
    by (simp_all add: sample_world_def sample_project_def)
  have c: "module_percentage sample_world (ModuleObj 1) = PyInt 50"
    by (simp add: module_percentage_def py_quotient_def sample_world_def sample_analysis_def)
  have d: "threshold_warn ?p = 70" "''pkg.mod'' \<in> set (discover_modules sample_world)"
    by (simp_all add: sample_world_def sample_project_def)
  have f: "fmt_2d 70 = ''70''" "fmt_2d 50 = ''50''"
    by (simp_all add: fmt_2d_def fmt_d_def digits10.simps)
  have e: "report_entry sample_world ''pkg.mod'' (ModuleObj 1) =
      \<lparr>mr_module = ''pkg.mod'', mr_coverage = PyInt 50, mr_sum_lines = 4,
       mr_lines = [1, 2, 3, 4], mr_sum_lines_not_covered = 2, mr_lines_not_covered = [3, 4]\<rparr>"
    by (simp add: report_entry_def module_percentage_def py_quotient_def sample_world_def
        sample_analysis_def)
  note r = exempted_module_never_fails [OF h, of loop_init]
  have low: "num_less (module_percentage sample_world (ModuleObj 1)) (threshold_warn ?p)"
    by (simp only: c d(1)) (simp add: num_less_def)
  have i: "\<not> coverage_too_low (cover_module sample_world ?p ''pkg.mod'' loop_init)"
    using r by (simp add: loop_init_def)
  have "events (cover_module sample_world ?p ''pkg.mod'' loop_init) =
      events loop_init @ [Analysis (ModuleObj 1),
        Log Info (below_msg (threshold_warn ?p) ''pkg.mod''
          (module_percentage sample_world (ModuleObj 1)))]"
    using r low by blast
  then have j: "events (cover_module sample_world ?p ''pkg.mod'' loop_init) =
      [Analysis (ModuleObj 1), Log Info ''Test coverage below 70% for pkg.mod: 50%'']"
    by (simp only: c d(1)) (simp add: below_msg_def f loop_init_def)
  have "report_entry sample_world ''pkg.mod'' (ModuleObj 1)
      \<in> set (module_names (coverage_report sample_world ?p))"
    using r d(2) by blast
  then have k: "\<lparr>mr_module = ''pkg.mod'', mr_coverage = PyInt 50, mr_sum_lines = 4,
       mr_lines = [1, 2, 3, 4], mr_sum_lines_not_covered = 2, mr_lines_not_covered = [3, 4]\<rparr>
      \<in> set (module_names (coverage_report sample_world ?p))"
    by (simp only: e)
  from h c d i j k show ?thesis by blast
qed

text \<open>
  C6. When the overall percentage is below the threshold the flag is set, whatever the
  exception list holds, and whatever the loop has left in the flag.
\<close>

theorem overall_below_threshold_sets_flag:
  assumes "num_less (overall_coverage (coverage_report w p)) (threshold_warn p)"
  shows "too_low w p
    \<and> overall w (analysed w p) = Inr (overall_coverage (coverage_report w p))
    \<and> flag_after_overall p st (overall_coverage (coverage_report w p))"
  using assms
  by (simp add: too_low_eq coverage_report_def flag_after_overall_def overall_analysed)

theorem overall_below_threshold_sets_flag_witness:
  "num_less
     (overall_coverage
       (coverage_report sample_world (sample_project\<lparr>exceptions := [''pkg'', ''pkg.mod'']\<rparr>)))
     (threshold_warn (sample_project\<lparr>exceptions := [''pkg'', ''pkg.mod'']\<rparr>))
   \<and> \<not> coverage_too_low
         (analysed sample_world (sample_project\<lparr>exceptions := [''pkg'', ''pkg.mod'']\<rparr>))
   \<and> too_low sample_world (sample_project\<lparr>exceptions := [''pkg'', ''pkg.mod'']\<rparr>)"
proof -
  let ?p = "sample_project\<lparr>exceptions := [''pkg'', ''pkg.mod'']\<rparr>"
  have s: "total_lines_all_modules sample_world ?p = 0"
    by (simp add: total_lines_all_modules_def sample_world_def sample_project_def)
  have h: "num_less (overall_coverage (coverage_report sample_world ?p)) (threshold_warn ?p)"
    by (simp add: coverage_report_def overall_percentage_def s num_less_def)
      (simp add: sample_project_def)
  have l: "\<not> coverage_too_low (analysed sample_world ?p)"
    by (simp add: coverage_too_low_analysed) (auto simp add: sample_world_def sample_project_def)
  from overall_below_threshold_sets_flag [OF h] h l show ?thesis by simp
qed

subsection \<open>Failing the build\<close>

lemma write_summary_report_written:
  assumes "report w ms = Inr s"
    and "xml_report w (expand_path w (''$dir_reports/'' @ x @ ''.xml''))
           \<in> {None, Some CoverageException}"
    and "save w \<in> {None, Some CoverageException}"
  shows "snd (write_summary_report w ms x) = Inr ()"
    and "last (fst (write_summary_report w ms x)) = WriteReport x (Summary s)"
  using assms by (auto simp add: write_summary_report_def Let_def)

lemma sample_low: "too_low sample_world sample_project"
proof -
  have "total_lines_all_modules sample_world sample_project = 4"
    "uncovered_lines_all_modules sample_world sample_project = 2"
    by (simp_all add: total_lines_all_modules_def uncovered_lines_all_modules_def
        sample_world_def sample_project_def sample_analysis_def)
  moreover have "interpreter sample_world = Python2" by (simp add: sample_world_def)
  ultimately have "overall_percentage sample_world sample_project = PyInt 50"
    by (simp add: overall_percentage_def py_quotient_def)
  then show ?thesis
    by (simp add: too_low_eq flag_after_overall_def num_less_def sample_project_def)
qed

text \<open>
  C3. Not forked, and with collaborators that return (the XML report and the save may
  raise the instrumenter's no-data exception, which is caught), \<^verbatim>\<open>do_coverage\<close> raises
  exactly when the flag is set and \<^verbatim>\<open>break_build\<close> is true. The exception is the build
  failure whose argument is the configured threshold. It is the result of the whole run:
  the structured report has been written, and the last event before the raise is the
  writing of the summary report.
\<close>

theorem do_coverage_build_failure:
  assumes "execute_task w t = None"
    and "report w (modules (analysed w p)) = Inr s"
    and "xml_report w (expand_path w (''$dir_reports/'' @ x @ ''.xml''))
           \<in> {None, Some CoverageException}"
    and "save w \<in> {None, Some CoverageException}"
  shows "snd (do_coverage w p x name t) =
           (if too_low w p \<and> break_build p
            then Inl (BuildFailedException
                   ''Test coverage for at least one module is below %d%%'' [threshold_warn p])
            else Inr ())
    \<and> WriteReport (x @ ''.json'') (Structured (coverage_report w p))
        \<in> set (fst (do_coverage w p x name t))
    \<and> last (fst (do_coverage w p x name t)) = WriteReport x (Summary s)
    \<and> snd (run_coverage w (p\<lparr>fork := False\<rparr>) x name t) =
        snd (do_coverage w (p\<lparr>fork := False\<rparr>) x name t)"
proof -
  note written = write_summary_report_written [OF assms(2-4)]
  have nonempty: "fst (write_summary_report w (modules (analysed w p)) x) \<noteq> []"
    using assms(2) by (auto simp add: write_summary_report_def Let_def split: option.splits)
  have result: "snd (do_coverage w p x name t) =
      (if too_low w p \<and> break_build p
       then Inl (BuildFailedException
              ''Test coverage for at least one module is below %d%%'' [threshold_warn p])
       else Inr ())"
    by (simp add: do_coverage_task_returns(2) [OF assms(1)] written(1) too_low_failure_def)
  have json: "WriteReport (x @ ''.json'') (Structured (coverage_report w p))
      \<in> set (fst (do_coverage w p x name t))"
    by (simp add: do_coverage_task_returns(1) [OF assms(1)])
  have final: "last (fst (do_coverage w p x name t)) = WriteReport x (Summary s)"
    using nonempty by (simp add: do_coverage_task_returns(1) [OF assms(1)] written(2))
  have unforked: "snd (run_coverage w (p\<lparr>fork := False\<rparr>) x name t) =
      snd (do_coverage w (p\<lparr>fork := False\<rparr>) x name t)"
    by (simp add: run_coverage_def Let_def)
  from result json final unforked show ?thesis by blast
qed

theorem do_coverage_build_failure_witness:
  "execute_task sample_world ''run_unit_tests'' = None
   \<and> report sample_world (modules (analysed sample_world sample_project))
       = Inr ''Name Stmts Miss Cover''
   \<and> xml_report sample_world (expand_path sample_world (''$dir_reports/'' @ ''coverage'' @ ''.xml''))
       \<in> {None, Some CoverageException}
   \<and> save sample_world \<in> {None, Some CoverageException}
   \<and> snd (do_coverage sample_world sample_project ''coverage'' ''coverage'' ''run_unit_tests'') =
       Inl (BuildFailedException ''Test coverage for at least one module is below %d%%'' [70])
   \<and> snd (do_coverage sample_world (sample_project\<lparr>break_build := False\<rparr>) ''coverage''
         ''coverage'' ''run_unit_tests'') = Inr ()
   \<and> last (fst (do_coverage sample_world sample_project ''coverage'' ''coverage''
         ''run_unit_tests'')) = WriteReport ''coverage'' (Summary ''Name Stmts Miss Cover'')"
proof -
  have h: "execute_task sample_world ''run_unit_tests'' = None"
    "report sample_world (modules (analysed sample_world sample_project))
       = Inr ''Name Stmts Miss Cover''"
    "xml_report sample_world (expand_path sample_world (''$dir_reports/'' @ ''coverage'' @ ''.xml''))
       \<in> {None, Some CoverageException}"
    "save sample_world \<in> {None, Some CoverageException}"
    by (simp_all add: sample_world_def)
  have h': "report sample_world
      (modules (analysed sample_world (sample_project\<lparr>break_build := False\<rparr>)))
       = Inr ''Name Stmts Miss Cover''"
    by (simp add: sample_world_def)
  have b: "break_build sample_project" "threshold_warn sample_project = 70"
    "\<not> break_build (sample_project\<lparr>break_build := False\<rparr>)"
    by (simp_all add: sample_project_def)
  from do_coverage_build_failure [OF h] do_coverage_build_failure [OF h(1) h' h(3,4)]
    h b sample_low
  show ?thesis by simp
qed

text \<open>
  C7. In fork mode the parent starts one process and joins it. A non-zero exit code with
  \<^verbatim>\<open>break_build\<close> true raises a build failure whose message ends with the exit code; the
  exit code 0 raises nothing, whatever \<^verbatim>\<open>break_build\<close> is.
\<close>

theorem run_coverage_fork:
  assumes "fork p"
  shows "fst (run_coverage w p x name t) =
           [Log Info ''Collecting coverage information'',
            Log Debug (''Forking process to do '' @ name @ '' analysis''),
            ProcessStart, ProcessJoin]
    \<and> (exitcode w \<noteq> 0 \<and> break_build p \<longrightarrow>
         snd (run_coverage w p x name t) =
           Inl (BuildFailedException
             (''Forked '' @ name @ '' process indicated failure with error code ''
                @ fmt_d (exitcode w)) []))
    \<and> (exitcode w = 0 \<longrightarrow> snd (run_coverage w p x name t) = Inr ())"
  using assms by (simp add: run_coverage_def fork_failure_def Let_def)

theorem run_coverage_fork_witness:
  "fork (sample_project\<lparr>fork := True\<rparr>)
   \<and> exitcode sample_world = 1
   \<and> break_build (sample_project\<lparr>fork := True\<rparr>)
   \<and> snd (run_coverage sample_world (sample_project\<lparr>fork := True\<rparr>) ''coverage'' ''coverage''
         ''run_unit_tests'') =
       Inl (BuildFailedException
         ''Forked coverage process indicated failure with error code 1'' [])
   \<and> exitcode (sample_world\<lparr>exitcode := 0\<rparr>) = 0
   \<and> snd (run_coverage (sample_world\<lparr>exitcode := 0\<rparr>) (sample_project\<lparr>fork := True\<rparr>)
         ''coverage'' ''coverage'' ''run_unit_tests'') = Inr ()"
proof -
  have h: "fork (sample_project\<lparr>fork := True\<rparr>)" by simp
  have e: "exitcode sample_world = 1" "break_build (sample_project\<lparr>fork := True\<rparr>)"
    "exitcode (sample_world\<lparr>exitcode := 0\<rparr>) = 0"
    by (simp_all add: sample_world_def sample_project_def)
  have f: "fmt_d 1 = ''1''" by (simp add: fmt_d_def digits10.simps)
  from run_coverage_fork [OF h, of sample_world "''coverage''" "''coverage''" "''run_unit_tests''"]
    run_coverage_fork [OF h, of "sample_world\<lparr>exitcode := 0\<rparr>" "''coverage''" "''coverage''"
      "''run_unit_tests''"] e f
  show ?thesis by simp
qed

subsection \<open>The summary report without coverage data\<close>

text \<open>
  C8, as stated, has every no-data exception of the summary step swallowed. The call
  \<^verbatim>\<open>coverage.report(modules, file=summary)\<close> stands before the \<^verbatim>\<open>try\<close>: when it is the
  call that raises, the exception leaves \<^verbatim>\<open>_write_summary_report\<close> and \<^verbatim>\<open>do_coverage\<close>,
  the summary is not written and the threshold is not checked.
\<close>

theorem report_without_data_propagates:
  "write_summary_report no_data_world [ModuleObj 0, ModuleObj 1] ''coverage'' =
     ([Report [ModuleObj 0, ModuleObj 1]], Inl CoverageException)
   \<and> modules (analysed no_data_world sample_project) = [ModuleObj 0, ModuleObj 1]
   \<and> too_low no_data_world sample_project \<and> break_build sample_project
   \<and> snd (do_coverage no_data_world sample_project ''coverage'' ''coverage'' ''run_unit_tests'')
       = Inl CoverageException"
proof -
  have m: "modules (analysed no_data_world sample_project) = [ModuleObj 0, ModuleObj 1]"
    by (simp add: modules_analysed no_data_world_def sample_world_def List.map_filter_simps)
  have s: "write_summary_report no_data_world [ModuleObj 0, ModuleObj 1] ''coverage'' =
      ([Report [ModuleObj 0, ModuleObj 1]], Inl CoverageException)"
    by (simp add: write_summary_report_def no_data_world_def sample_world_def)
  have t: "execute_task no_data_world ''run_unit_tests'' = None"
    by (simp add: no_data_world_def sample_world_def)
  have "total_lines_all_modules no_data_world sample_project = 4"
    "uncovered_lines_all_modules no_data_world sample_project = 2"
    by (simp_all add: total_lines_all_modules_def uncovered_lines_all_modules_def
        no_data_world_def sample_world_def sample_project_def sample_analysis_def)
  moreover have "interpreter no_data_world = Python2"
    by (simp add: no_data_world_def sample_world_def)
  ultimately have "overall_percentage no_data_world sample_project = PyInt 50"
    by (simp add: overall_percentage_def py_quotient_def)
  then have l: "too_low no_data_world sample_project"
    by (simp add: too_low_eq flag_after_overall_def num_less_def sample_project_def)
  have b: "break_build sample_project" by (simp add: sample_project_def)
  have r: "snd (do_coverage no_data_world sample_project ''coverage'' ''coverage''
      ''run_unit_tests'') = Inl CoverageException"
    by (simp only: do_coverage_task_returns(2) [OF t] m s) simp
  from m s l b r show ?thesis by blast
qed

text \<open>
  C8, amended. When the text report has been produced, a no-data exception raised by the
  XML report, or by the save after it, is swallowed: \<^verbatim>\<open>_write_summary_report\<close> returns,
  its last action is the writing of the plain-text summary, and \<^verbatim>\<open>do_coverage\<close> goes on
  to the threshold check, whose outcome is its result.
\<close>

theorem no_data_exception_swallowed:
  assumes "report w ms = Inr s"
    and "xml_report w (expand_path w (''$dir_reports/'' @ x @ ''.xml'')) = Some CoverageException
       \<or> xml_report w (expand_path w (''$dir_reports/'' @ x @ ''.xml'')) = None
           \<and> save w = Some CoverageException"
  shows "snd (write_summary_report w ms x) = Inr ()
    \<and> last (fst (write_summary_report w ms x)) = WriteReport x (Summary s)
    \<and> (execute_task w t = None \<and> ms = modules (analysed w p) \<longrightarrow>
         snd (do_coverage w p x name t) =
           (if too_low w p \<and> break_build p then Inl (too_low_failure p) else Inr ()))"
proof -
  have returns: "snd (write_summary_report w ms x) = Inr ()"
    using assms by (auto simp add: write_summary_report_def Let_def)
  have written: "last (fst (write_summary_report w ms x)) = WriteReport x (Summary s)"
    using assms by (auto simp add: write_summary_report_def Let_def)
  have checked: "execute_task w t = None \<and> ms = modules (analysed w p) \<longrightarrow>
      snd (do_coverage w p x name t) =
        (if too_low w p \<and> break_build p then Inl (too_low_failure p) else Inr ())"
    using returns by (auto simp add: do_coverage_task_returns(2))
  from returns written checked show ?thesis by blast
qed

theorem no_data_exception_swallowed_witness:
  "report (sample_world\<lparr>xml_report := (\<lambda>f. Some CoverageException)\<rparr>) [ModuleObj 0, ModuleObj 1]
     = Inr ''Name Stmts Miss Cover''
   \<and> xml_report (sample_world\<lparr>xml_report := (\<lambda>f. Some CoverageException)\<rparr>)
       (expand_path (sample_world\<lparr>xml_report := (\<lambda>f. Some CoverageException)\<rparr>)
          (''$dir_reports/'' @ ''coverage'' @ ''.xml'')) = Some CoverageException
   \<and> write_summary_report (sample_world\<lparr>xml_report := (\<lambda>f. Some CoverageException)\<rparr>)
       [ModuleObj 0, ModuleObj 1] ''coverage'' =
       ([Report [ModuleObj 0, ModuleObj 1], XmlReport ''$dir_reports/coverage.xml'',
         WriteReport ''coverage'' (Summary ''Name Stmts Miss Cover'')], Inr ())"
proof -
  let ?w = "sample_world\<lparr>xml_report := (\<lambda>f. Some CoverageException)\<rparr>"
  have h: "report ?w [ModuleObj 0, ModuleObj 1] = Inr ''Name Stmts Miss Cover''"
    by (simp add: sample_world_def)
  have g: "xml_report ?w (expand_path ?w (''$dir_reports/'' @ ''coverage'' @ ''.xml''))
      = Some CoverageException"
    by simp
  have r: "snd (write_summary_report ?w [ModuleObj 0, ModuleObj 1] ''coverage'') = Inr ()"
    using no_data_exception_swallowed [OF h disjI1 [OF g]] by blast
  have e: "fst (write_summary_report ?w [ModuleObj 0, ModuleObj 1] ''coverage'') =
      [Report [ModuleObj 0, ModuleObj 1], XmlReport ''$dir_reports/coverage.xml'',
       WriteReport ''coverage'' (Summary ''Name Stmts Miss Cover'')]"
    by (simp add: write_summary_report_def sample_world_def)
  have "write_summary_report ?w [ModuleObj 0, ModuleObj 1] ''coverage'' =
      ([Report [ModuleObj 0, ModuleObj 1], XmlReport ''$dir_reports/coverage.xml'',
        WriteReport ''coverage'' (Summary ''Name Stmts Miss Cover'')], Inr ())"
    using r e by (simp add: prod_eq_iff)
  with h g show ?thesis by blast
qed

subsection \<open>The property \<^verbatim>\<open>__running_coverage\<close>\<close>

lemma after_task_events:
  assumes "e \<in> set (reimport_source_modules w p @ [Stop] @ after_stop w p x name)"
  shows "(\<forall>k b. e \<noteq> SetProperty k b) \<and> (\<forall>t. e \<noteq> ExecuteTask t)"
proof -
  from assms consider "e \<in> set (reimport_source_modules w p)" | "e = Stop"
    | "e \<in> set (after_stop w p x name)"
    by auto
  then show ?thesis
  proof cases
    case 1
    from reimport_source_modules_events [OF this] show ?thesis by auto
  next
    case 2
    then show ?thesis by simp
  next
    case 3
    from after_stop_events [OF this] show ?thesis by auto
  qed
qed

lemma running_coverage_window:
  assumes v: "v \<noteq> Some True"
    and quiet: "\<And>e. e \<in> set rest \<Longrightarrow>
        (\<forall>k b. e \<noteq> SetProperty k b) \<and> (\<forall>t. e \<noteq> ExecuteTask t)"
    and i: "i < 5 + length rest"
  shows "(running_coverage_after v
            (take i ([Erase, Start, SetProperty ''__running_coverage'' True, ExecuteTask t,
               SetProperty ''__running_coverage'' False] @ rest)) = Some True) =
         (([Erase, Start, SetProperty ''__running_coverage'' True, ExecuteTask t,
              SetProperty ''__running_coverage'' False] @ rest) ! i = ExecuteTask t
          \<or> ([Erase, Start, SetProperty ''__running_coverage'' True, ExecuteTask t,
              SetProperty ''__running_coverage'' False] @ rest) ! i
               = SetProperty ''__running_coverage'' False)"
proof (cases "i < 5")
  case True
  then consider "i = 0" | "i = 1" | "i = 2" | "i = 3" | "i = 4" by linarith
  then show ?thesis
  proof cases
    case 1
    with v show ?thesis by simp
  next
    case 2
    with v show ?thesis by simp
  next
    case 3
    with v show ?thesis by simp
  next
    case 4
    then show ?thesis by simp
  next
    case 5
    then show ?thesis by simp
  qed
next
  case False
  let ?pre = "[Erase, Start, SetProperty ''__running_coverage'' True, ExecuteTask t,
      SetProperty ''__running_coverage'' False]"
  let ?xs = "take (i - 5) rest"
  have unwritten: "SetProperty k b \<notin> set ?xs" for k b
  proof
    assume "SetProperty k b \<in> set ?xs"
    then have "SetProperty k b \<in> set rest" by (rule in_set_takeD)
    from quiet [OF this] show False by blast
  qed
  have len: "length ?pre = 5" by simp
  have whole: "take i ?pre = ?pre" using False by (intro take_all) simp
  have split: "take i (?pre @ rest) = ?pre @ ?xs"
    by (simp only: take_append whole len)
  have "running_coverage_after v (?pre @ ?xs) = running_coverage_after (Some False) ?xs"
    by simp
  also have "\<dots> = Some False"
    using unwritten by (rule running_coverage_after_unwritten)
  finally have left: "running_coverage_after v (take i (?pre @ rest)) \<noteq> Some True"
    by (simp only: split) simp
  have inside: "i - 5 < length rest" using False i by simp
  have "\<not> i < length ?pre" using False by simp
  then have "(?pre @ rest) ! i = rest ! (i - length ?pre)" by (simp only: nth_append if_False)
  then have "(?pre @ rest) ! i = rest ! (i - 5)" by (simp only: len)
  with inside have "(?pre @ rest) ! i \<in> set rest" by simp
  from quiet [OF this] left show ?thesis by simp
qed

text \<open>
  C10. \<^verbatim>\<open>do_coverage\<close> writes \<^verbatim>\<open>__running_coverage\<close> twice and nowhere else: True
  immediately before it executes the target task, False immediately after the task has
  returned. So a run that returns leaves the property False, whatever it was before. When
  the property was not True before the run, it is True at an event of the run exactly when
  the event is the execution of the task or the write that resets it.
\<close>

theorem running_coverage_around_task:
  "take 4 (fst (do_coverage w p x name t)) =
     [Erase, Start, SetProperty ''__running_coverage'' True, ExecuteTask t]
   \<and> (execute_task w t = None \<longrightarrow>
        fst (do_coverage w p x name t) =
          [Erase, Start, SetProperty ''__running_coverage'' True, ExecuteTask t,
           SetProperty ''__running_coverage'' False]
          @ reimport_source_modules w p @ [Stop] @ after_stop w p x name
        \<and> (\<forall>e \<in> set (reimport_source_modules w p @ [Stop] @ after_stop w p x name).
              (\<forall>k b. e \<noteq> SetProperty k b) \<and> (\<forall>t'. e \<noteq> ExecuteTask t')))
   \<and> (snd (do_coverage w p x name t) = Inr () \<longrightarrow>
        running_coverage_after v (fst (do_coverage w p x name t)) = Some False)
   \<and> (v \<noteq> Some True \<longrightarrow>
        (\<forall>i < length (fst (do_coverage w p x name t)).
           (running_coverage_after v (take i (fst (do_coverage w p x name t))) = Some True) =
           (fst (do_coverage w p x name t) ! i = ExecuteTask t
            \<or> fst (do_coverage w p x name t) ! i = SetProperty ''__running_coverage'' False)))"
proof (cases "execute_task w t")
  case (Some e)
  have tr: "do_coverage w p x name t =
      ([Erase, Start, SetProperty ''__running_coverage'' True, ExecuteTask t], Inl e)"
    using Some by (rule do_coverage_task_raises)
  have window: "v \<noteq> Some True \<longrightarrow>
      (\<forall>i < length (fst (do_coverage w p x name t)).
         (running_coverage_after v (take i (fst (do_coverage w p x name t))) = Some True) =
         (fst (do_coverage w p x name t) ! i = ExecuteTask t
          \<or> fst (do_coverage w p x name t) ! i = SetProperty ''__running_coverage'' False))"
  proof (intro impI allI)
    fix i
    assume v: "v \<noteq> Some True" and "i < length (fst (do_coverage w p x name t))"
    then have "i < 4" by (simp add: tr)
    then consider "i = 0" | "i = 1" | "i = 2" | "i = 3" by linarith
    then show "(running_coverage_after v (take i (fst (do_coverage w p x name t))) = Some True) =
        (fst (do_coverage w p x name t) ! i = ExecuteTask t
         \<or> fst (do_coverage w p x name t) ! i = SetProperty ''__running_coverage'' False)"
      using v by cases (auto simp add: tr)
  qed
  from Some window show ?thesis by (simp add: tr)
next
  case None
  let ?rest = "reimport_source_modules w p @ [Stop] @ after_stop w p x name"
  have tr: "fst (do_coverage w p x name t) =
      [Erase, Start, SetProperty ''__running_coverage'' True, ExecuteTask t,
       SetProperty ''__running_coverage'' False] @ ?rest"
    by (simp add: do_coverage_task_returns(1) [OF None] after_stop_def)
  have quiet: "\<forall>e \<in> set ?rest. (\<forall>k b. e \<noteq> SetProperty k b) \<and> (\<forall>t'. e \<noteq> ExecuteTask t')"
    using after_task_events by blast
  then have unwritten: "running_coverage_after u ?rest = u" for u
    by (intro running_coverage_after_unwritten) blast
  have "running_coverage_after v (fst (do_coverage w p x name t)) =
      running_coverage_after
        (running_coverage_after v
          [Erase, Start, SetProperty ''__running_coverage'' True, ExecuteTask t,
           SetProperty ''__running_coverage'' False]) ?rest"
    by (simp only: tr running_coverage_after_append)
  then have final: "running_coverage_after v (fst (do_coverage w p x name t)) = Some False"
    by (simp only: unwritten) simp
  have window: "v \<noteq> Some True \<longrightarrow>
      (\<forall>i < length (fst (do_coverage w p x name t)).
         (running_coverage_after v (take i (fst (do_coverage w p x name t))) = Some True) =
         (fst (do_coverage w p x name t) ! i = ExecuteTask t
          \<or> fst (do_coverage w p x name t) ! i = SetProperty ''__running_coverage'' False))"
  proof (intro impI allI)
    fix i
    assume v: "v \<noteq> Some True" and "i < length (fst (do_coverage w p x name t))"
    then have i: "i < 5 + length ?rest" by (simp only: tr) simp
    have q: "\<And>e. e \<in> set ?rest \<Longrightarrow>
        (\<forall>k b. e \<noteq> SetProperty k b) \<and> (\<forall>t'. e \<noteq> ExecuteTask t')"
      using quiet by blast
    from running_coverage_window [OF v q i, of t]
    show "(running_coverage_after v (take i (fst (do_coverage w p x name t))) = Some True) =
        (fst (do_coverage w p x name t) ! i = ExecuteTask t
         \<or> fst (do_coverage w p x name t) ! i = SetProperty ''__running_coverage'' False)"
      by (simp only: tr)
  qed
  have first: "take 4 (fst (do_coverage w p x name t)) =
      [Erase, Start, SetProperty ''__running_coverage'' True, ExecuteTask t]"
    by (simp add: tr)
  from None tr quiet final window first show ?thesis by blast
qed

theorem running_coverage_around_task_witness:
  "execute_task sample_world ''run_unit_tests'' = None
   \<and> snd (do_coverage sample_world (sample_project\<lparr>break_build := False\<rparr>) ''coverage''
        ''coverage'' ''run_unit_tests'') = Inr ()
   \<and> running_coverage_after None
        (fst (do_coverage sample_world (sample_project\<lparr>break_build := False\<rparr>) ''coverage''
           ''coverage'' ''run_unit_tests'')) = Some False
   \<and> 3 < length (fst (do_coverage sample_world (sample_project\<lparr>break_build := False\<rparr>)
        ''coverage'' ''coverage'' ''run_unit_tests''))
   \<and> running_coverage_after None
        (take 3 (fst (do_coverage sample_world (sample_project\<lparr>break_build := False\<rparr>)
           ''coverage'' ''coverage'' ''run_unit_tests''))) = Some True"
proof -
  let ?p = "sample_project\<lparr>break_build := False\<rparr>"
  let ?d = "do_coverage sample_world ?p ''coverage'' ''coverage'' ''run_unit_tests''"
  have h: "execute_task sample_world ''run_unit_tests'' = None"
    by (simp add: sample_world_def)
  have "snd (write_summary_report sample_world (modules (analysed sample_world ?p)) ''coverage'')
      = Inr ()"
    by (simp add: write_summary_report_def sample_world_def)
  then have r: "snd ?d = Inr ()"
    by (simp add: do_coverage_task_returns(2) [OF h] sample_project_def)
  note c = running_coverage_around_task [of sample_world ?p "''coverage''" "''coverage''"
      "''run_unit_tests''" None]
  from c r have f: "running_coverage_after None (fst ?d) = Some False" by blast
  from c h have s: "fst ?d =
      [Erase, Start, SetProperty ''__running_coverage'' True, ExecuteTask ''run_unit_tests'',
       SetProperty ''__running_coverage'' False]
      @ reimport_source_modules sample_world ?p @ [Stop]
      @ after_stop sample_world ?p ''coverage'' ''coverage''"
    by blast
  have l: "3 < length (fst ?d)" by (simp add: s)
  have n: "fst ?d ! 3 = ExecuteTask ''run_unit_tests''" by (simp add: s)
  from c l n have w: "running_coverage_after None (take 3 (fst ?d)) = Some True" by blast
  from h r f l w show ?thesis by blast
qed


end
